theory Spec2Isabelle
  imports Main "HOL-Library.Sublist"
begin

section \<open>Data model\<close>

text \<open>
  The rewrite rules of the \<^verbatim>\<open>remote\<close> and \<^verbatim>\<open>apply\<close> subcommands mutate an
  \<^verbatim>\<open>*Args\<close> value in place and may abort the process through \<^verbatim>\<open>utils.Check\<close>.
  The model passes the argument list explicitly and returns either the rewritten list
  (\<open>Inr\<close>) or the failure together with the list as it stood when the failure was raised
  (\<open>Inl\<close>).
\<close>

record Project =
  Name :: string
  Owner :: string
  Host :: string

record HostConfig =
  User :: string

record Args =
  Command :: string
  Params :: "string list"
  beforeChain :: "string list list"
  Noop :: bool

datatype failure =
    LocalRepoError string
  | RootDirNameError string
  | ConfigurationError string
  | IndexOutOfBound int

type_synonym 'a outcome = "(failure \<times> Args) + 'a"

text \<open>
  Everything the two rules read from outside their own source files is a field of the
  context: the results of the collaborators (local repository, configuration), the
  constants \<^verbatim>\<open>OwnerRe\<close>, \<^verbatim>\<open>NameRe\<close>, \<^verbatim>\<open>github.GitHubHost\<close> and \<^verbatim>\<open>Version\<close>, and the
  functions \<^verbatim>\<open>Args.Words\<close>, \<^verbatim>\<open>github.NewProject\<close>, \<^verbatim>\<open>Project.GitURL\<close>,
  \<^verbatim>\<open>strings.ToLower\<close> and \<^verbatim>\<open>os.TempDir\<close>. The two rules are defined for every choice of
  them. Where a property is about the grammars or the URL builder themselves, these are
  given by the definitions \<open>OwnerRe\<close>, \<open>NameRe\<close>, \<open>nameWithOwnerRe\<close> and \<open>projectGitURL\<close>
  below, modelled from the specification.

  \<^item> \<open>ownerRegexp s\<close>: \<^verbatim>\<open>^(OwnerRe)$\<close> matches \<open>s\<close> (group 1 is then \<open>s\<close> itself);
  \<^item> \<open>nameWithOwnerRegexp s\<close>: groups 1 and 2 of \<^verbatim>\<open>^(OwnerRe)\/(NameRe)$\<close> on \<open>s\<close>;
  \<^item> \<open>LocalRepo\<close>: the error of \<^verbatim>\<open>github.LocalRepo()\<close>, \<open>None\<close> for \<^verbatim>\<open>nil\<close>;
  \<^item> \<open>MainProject\<close>, \<open>RootDirName\<close>, \<open>DefaultHost\<close>: error (\<open>Inl\<close>) or value (\<open>Inr\<close>).
\<close>

record Context =
  ownerRegexp :: "string \<Rightarrow> bool"
  nameWithOwnerRegexp :: "string \<Rightarrow> (string \<times> string) option"
  Words :: "string list \<Rightarrow> string list"
  ToLower :: "string \<Rightarrow> string"
  LocalRepo :: "string option"
  MainProject :: "string + Project"
  RootDirName :: "string + string"
  DefaultHost :: "string + HostConfig"
  NewProject :: "string \<Rightarrow> string \<Rightarrow> string \<Rightarrow> Project"
  GitURL :: "Project \<Rightarrow> string \<Rightarrow> string \<Rightarrow> bool \<Rightarrow> string"
  GitHubHost :: string
  TempDir :: string
  Version :: string

section \<open>The argument list\<close>

text \<open>
  The methods of \<^verbatim>\<open>Args\<close> are not among the sources; each one is modelled from its
  contract in section 4.1 of the specification.
\<close>

text \<open>
  Modelled from the spec: \<^verbatim>\<open>Args.IsParamsEmpty\<close> is missing; \<^verbatim>\<open>isParamsEmpty()\<close> is true
  iff no positional parameter remains.
\<close>

definition IsParamsEmpty :: "Args \<Rightarrow> bool" where
  "IsParamsEmpty args = (Params args = [])"

text \<open>
  Modelled from the spec: \<^verbatim>\<open>Args.ParamsSize\<close> is missing; it is the number of positional
  parameters, as a Go \<^verbatim>\<open>int\<close>.
\<close>

definition ParamsSize :: "Args \<Rightarrow> int" where
  "ParamsSize args = int (length (Params args))"

text \<open>
  Modelled from the spec: \<^verbatim>\<open>Args.FirstParam\<close> is missing; \<^verbatim>\<open>firstParam()\<close> returns the
  first positional parameter, or a defined empty value if none exist.
\<close>

definition FirstParam :: "Args \<Rightarrow> string" where
  "FirstParam args = (case Params args of [] \<Rightarrow> [] | p # _ \<Rightarrow> p)"

text \<open>
  Modelled from the spec: \<^verbatim>\<open>Args.LastParam\<close> is missing; \<^verbatim>\<open>lastParam()\<close> returns the last
  positional parameter, or a defined empty value if none exist.
\<close>

definition LastParam :: "Args \<Rightarrow> string" where
  "LastParam args = (if Params args = [] then [] else last (Params args))"

text \<open>
  Modelled from the spec: \<^verbatim>\<open>Args.IndexOfParam\<close> is missing; \<^verbatim>\<open>indexOfParam(value)\<close> returns
  the current position of a parameter equal to \<open>value\<close>, or "not found", which the callers
  compare with \<open>-1\<close>. The scan runs from the front, so the position is that of the first
  such parameter.
\<close>

fun indexOf :: "string \<Rightarrow> string list \<Rightarrow> nat option" where
  "indexOf v [] = None"
| "indexOf v (p # ps) =
     (if p = v then Some 0 else map_option Suc (indexOf v ps))"

definition IndexOfParam :: "Args \<Rightarrow> string \<Rightarrow> int" where
  "IndexOfParam args v = (case indexOf v (Params args) of None \<Rightarrow> - 1 | Some i \<Rightarrow> int i)"

text \<open>
  Modelled from the spec: \<^verbatim>\<open>Args.ReplaceParam\<close> is missing; \<^verbatim>\<open>replaceParam(index, value)\<close>
  mutates the parameter sequence and preserves the relative order of the untouched
  elements. The specification is silent about an index outside the sequence; the model
  reports it as the failure \<open>IndexOutOfBound\<close>.
\<close>

definition ReplaceParam :: "Args \<Rightarrow> int \<Rightarrow> string \<Rightarrow> failure + Args" where
  "ReplaceParam args i item =
     (if 0 \<le> i \<and> i < ParamsSize args
      then Inr (args\<lparr>Params := (Params args)[nat i := item]\<rparr>)
      else Inl (IndexOutOfBound i))"

text \<open>
  Modelled from the spec: \<^verbatim>\<open>Args.RemoveParam\<close> is missing; \<^verbatim>\<open>removeParam(index)\<close> removes
  the parameter at the index and preserves the relative order of the others; an index
  outside the sequence is the failure \<open>IndexOutOfBound\<close>, as for \<open>ReplaceParam\<close>.
\<close>

definition RemoveParam :: "Args \<Rightarrow> int \<Rightarrow> failure + Args" where
  "RemoveParam args i =
     (if 0 \<le> i \<and> i < ParamsSize args
      then Inr (args\<lparr>Params := take (nat i) (Params args) @ drop (Suc (nat i)) (Params args)\<rparr>)
      else Inl (IndexOutOfBound i))"

text \<open>
  Modelled from the spec: \<^verbatim>\<open>Args.AppendParams\<close> is missing; \<^verbatim>\<open>appendParams(values...)\<close>
  adds the values after the parameters already there.
\<close>

definition AppendParams :: "Args \<Rightarrow> string list \<Rightarrow> Args" where
  "AppendParams args ps = args\<lparr>Params := Params args @ ps\<rparr>"

text \<open>
  Modelled from the spec: \<^verbatim>\<open>Args.Before\<close> is missing; it is the specification's
  \<^verbatim>\<open>insertPrerequisite(executable, args...)\<close>, which appends an independent command to
  the queue that runs before the main command; the order of insertions is preserved.
\<close>

definition Before :: "Args \<Rightarrow> string list \<Rightarrow> Args" where
  "Before args cmd = args\<lparr>beforeChain := beforeChain args @ [cmd]\<rparr>"

section \<open>The remote rule\<close>

text \<open>\<^verbatim>\<open>parseRepoNameOwner\<close>: bare owner first, then owner/name, else two empty strings.\<close>

definition parseRepoNameOwner :: "Context \<Rightarrow> string \<Rightarrow> string \<times> string" where
  "parseRepoNameOwner ctx nameWithOwner =
     (if ownerRegexp ctx nameWithOwner then (nameWithOwner, [])
      else (case nameWithOwnerRegexp ctx nameWithOwner of
              Some (owner, name) \<Rightarrow> (owner, name)
            | None \<Rightarrow> ([], [])))"

definition parseRemotePrivateFlag :: "Args \<Rightarrow> (bool \<times> Args) outcome" where
  "parseRemotePrivateFlag args =
     (let i = IndexOfParam args ''-p'' in
      if i \<noteq> - 1 then
        (case RemoveParam args i of
           Inl e \<Rightarrow> Inl (e, args)
         | Inr args' \<Rightarrow> Inr (True, args'))
      else Inr (False, args))"

text \<open>
  Lines 65 to 77 of \<^verbatim>\<open>transformRemoteArgs\<close>: the values of \<^verbatim>\<open>name\<close>, \<^verbatim>\<open>repoName\<close> and
  \<^verbatim>\<open>host\<close> after the block. With an explicit name, \<^verbatim>\<open>repoName\<close> and \<^verbatim>\<open>host\<close> keep their
  zero value, the empty string. \<^verbatim>\<open>utils.Check\<close> aborts on the error of
  \<^verbatim>\<open>git.RootDirName\<close>.
\<close>

definition resolveRepoName :: "Context \<Rightarrow> Args \<Rightarrow> string \<Rightarrow> (string \<times> string \<times> string) outcome" where
  "resolveRepoName ctx args name =
     (if name = [] then
        (case MainProject ctx of
           Inr project \<Rightarrow> Inr (Name project, Name project, Host project)
         | Inl _ \<Rightarrow>
             (case RootDirName ctx of
                Inr dir \<Rightarrow> Inr (dir, dir, [])
              | Inl err \<Rightarrow> Inl (RootDirNameError err, args)))
      else Inr (name, [], []))"

text \<open>
  Lines 84 to 97: the words are taken before the \<^verbatim>\<open>-p\<close> flag is removed; the result is
  the private flag, the owner and name to use, and the argument list after the edit.
\<close>

definition rewriteWords ::
  "Context \<Rightarrow> Args \<Rightarrow> HostConfig \<Rightarrow> string \<Rightarrow> string \<Rightarrow> string \<Rightarrow>
     (bool \<times> string \<times> string \<times> Args) outcome" where
  "rewriteWords ctx args hostConfig owner name repoName =
     (let words = Words ctx (Params args) in
      case parseRemotePrivateFlag args of
        Inl f \<Rightarrow> Inl f
      | Inr (isPrivate, args1) \<Rightarrow>
          if length words = 2 \<and> words ! 1 = ''origin'' then
            Inr (isPrivate, User hostConfig, repoName, args1)
          else if length words = 2 then
            (let idx = IndexOfParam args1 (words ! 1) in
             if idx \<noteq> - 1 then
               (case ReplaceParam args1 idx owner of
                  Inl e \<Rightarrow> Inl (e, args1)
                | Inr args2 \<Rightarrow> Inr (isPrivate, owner, name, args2))
             else Inr (isPrivate, owner, name, args1))
          else
            (case RemoveParam args1 (ParamsSize args1 - 1) of
               Inl e \<Rightarrow> Inl (e, args1)
             | Inr args2 \<Rightarrow> Inr (isPrivate, owner, name, args2)))"

text \<open>Lines 99 to 108: normalise the owner, decide the visibility, append the URL.\<close>

definition appendRemoteURL ::
  "Context \<Rightarrow> HostConfig \<Rightarrow> string \<Rightarrow> bool \<Rightarrow> string \<Rightarrow> string \<Rightarrow> Args \<Rightarrow> Args" where
  "appendRemoteURL ctx hostConfig host isPrivate owner name args =
     (let same = (ToLower ctx owner = ToLower ctx (User hostConfig));
          owner1 = (if same then User hostConfig else owner);
          isPrivate1 = (if same then True else isPrivate);
          project = NewProject ctx owner1 name host;
          isPrivate2 = (isPrivate1 \<or> Host project \<noteq> GitHubHost ctx);
          url = GitURL ctx project name owner1 isPrivate2
      in AppendParams args [url])"

text \<open>
  \<^verbatim>\<open>transformRemoteArgs\<close>. A failing \<^verbatim>\<open>DefaultHost()\<close> is wrapped by
  \<^verbatim>\<open>github.FormatError\<close> and handed to \<^verbatim>\<open>utils.Check\<close>, which aborts.
\<close>

definition transformRemoteArgs :: "Context \<Rightarrow> Args \<Rightarrow> Args outcome" where
  "transformRemoteArgs ctx args =
     (let ownerWithName = LastParam args;
          (owner, name) = parseRepoNameOwner ctx ownerWithName
      in if owner = [] then Inr args
         else
           (case LocalRepo ctx of
              Some err \<Rightarrow> Inl (LocalRepoError err, args)
            | None \<Rightarrow>
                (case resolveRepoName ctx args name of
                   Inl f \<Rightarrow> Inl f
                 | Inr (name1, repoName, host) \<Rightarrow>
                     (case DefaultHost ctx of
                        Inl err \<Rightarrow> Inl (ConfigurationError err, args)
                      | Inr hostConfig \<Rightarrow>
                          (case rewriteWords ctx args hostConfig owner name1 repoName of
                             Inl f \<Rightarrow> Inl f
                           | Inr (isPrivate, owner1, name2, args1) \<Rightarrow>
                               Inr (appendRemoteURL ctx hostConfig host isPrivate owner1 name2 args1))))))"

definition remote :: "Context \<Rightarrow> Args \<Rightarrow> Args outcome" where
  "remote ctx args =
     (if \<not> IsParamsEmpty args \<and> (FirstParam args = ''add'' \<or> FirstParam args = ''set-url'')
      then transformRemoteArgs ctx args
      else Inr args)"

section \<open>The apply rule\<close>

subsection \<open>The three regular expressions\<close>

fun stripPrefix :: "string \<Rightarrow> string \<Rightarrow> string option" where
  "stripPrefix [] s = Some s"
| "stripPrefix (p # ps) [] = None"
| "stripPrefix (p # ps) (c # cs) = (if p = c then stripPrefix ps cs else None)"

text \<open>
  \<^verbatim>\<open>urlRegexp = "^https?://(gist\\.)?github\\.com/"\<close>. The result is \<open>None\<close> when the
  expression does not match and group 1 otherwise (\<^verbatim>\<open>"gist."\<close> or the empty string).
  Neither optional part leaves a choice: after \<^verbatim>\<open>http\<close> an \<^verbatim>\<open>s\<close> cannot start \<^verbatim>\<open>://\<close>,
  and a text starting with \<^verbatim>\<open>gist.\<close> does not start with \<^verbatim>\<open>github.com/\<close>.
\<close>

definition urlRegexp :: "string \<Rightarrow> string option" where
  "urlRegexp url =
     (case stripPrefix ''http'' url of
        None \<Rightarrow> None
      | Some r1 \<Rightarrow>
          (case stripPrefix ''://'' (case stripPrefix ''s'' r1 of Some r \<Rightarrow> r | None \<Rightarrow> r1) of
             None \<Rightarrow> None
           | Some r2 \<Rightarrow>
               (case stripPrefix ''gist.'' r2 of
                  Some r3 \<Rightarrow> (if stripPrefix ''github.com/'' r3 \<noteq> None then Some ''gist.'' else None)
                | None \<Rightarrow> (if stripPrefix ''github.com/'' r2 \<noteq> None then Some [] else None))))"

text \<open>
  \<^verbatim>\<open>fragmentRegexp.ReplaceAllString(url, "")\<close> with \<^verbatim>\<open>fragmentRegexp = "#.+"\<close>: a \<^verbatim>\<open>#\<close>
  followed by at least one character other than a line feed is deleted together with
  everything up to the next line feed (\<^verbatim>\<open>.\<close> does not match a line feed).
\<close>

function stripFragment :: "string \<Rightarrow> string" where
  "stripFragment [] = []"
| "stripFragment (c # cs) =
     (if c = CHR ''#'' \<and> cs \<noteq> [] \<and> hd cs \<noteq> CHR 0x0A
      then stripFragment (dropWhile (\<lambda>x. x \<noteq> CHR 0x0A) cs)
      else c # stripFragment cs)"
  by pat_completeness auto
termination
  by (relation "measure length") (auto simp: less_Suc_eq_le length_dropWhile_le)

definition isDigit :: "char \<Rightarrow> bool" where
  "isDigit c = (c \<in> set ''0123456789'')"

definition isWord :: "char \<Rightarrow> bool" where
  "isWord c = (c \<in> set ''0123456789_abcdefghijklmnopqrstuvwxyzABCDEFGHIJKLMNOPQRSTUVWXYZ'')"

text \<open>
  \<^verbatim>\<open>pullRegexp = "(/pull/\\d+)/\\w*$"\<close>. \<open>pullAt s\<close> matches the expression at the start of
  \<open>s\<close> up to the end of the text and returns group 1; \<open>pullRegexp\<close> finds the leftmost
  match and returns the text in front of it with group 1. The match reaches the end of the
  text, so \<^verbatim>\<open>ReplaceAllString(url, pull)\<close> is the text before it followed by \<^verbatim>\<open>pull\<close>.
\<close>

definition pullAt :: "string \<Rightarrow> string option" where
  "pullAt s =
     (case stripPrefix ''/pull/'' s of
        None \<Rightarrow> None
      | Some r \<Rightarrow>
          (let ds = takeWhile isDigit r in
           case dropWhile isDigit r of
             [] \<Rightarrow> None
           | c # w \<Rightarrow>
               if ds \<noteq> [] \<and> c = CHR ''/'' \<and> list_all isWord w
               then Some (''/pull/'' @ ds) else None))"

fun pullRegexp :: "string \<Rightarrow> (string \<times> string) option" where
  "pullRegexp [] = None"
| "pullRegexp (c # cs) =
     (case pullAt (c # cs) of
        Some pull \<Rightarrow> Some ([], pull)
      | None \<Rightarrow> map_option (\<lambda>(front, pull). (c # front, pull)) (pullRegexp cs))"

subsection \<open>Paths\<close>

text \<open>
  \<^verbatim>\<open>filepath.Ext\<close> (Unix): the suffix beginning at the final dot in the final element of
  the path, empty if there is no dot. The loop walks back from the end and stops at a
  separator.
\<close>

fun extFrom :: "string \<Rightarrow> string \<Rightarrow> string" where
  "extFrom [] seen = []"
| "extFrom (c # front) seen =
     (if c = CHR ''/'' then []
      else if c = CHR ''.'' then c # seen
      else extFrom front (c # seen))"

definition Ext :: "string \<Rightarrow> string" where
  "Ext path = extFrom (rev path) []"

text \<open>
  \<^verbatim>\<open>filepath.Base\<close> (Unix): the last element of the path, trailing separators removed
  first; \<^verbatim>\<open>"."\<close> for the empty path and \<^verbatim>\<open>"/"\<close> for a path of separators only.
\<close>

definition Base :: "string \<Rightarrow> string" where
  "Base path =
     (if path = [] then ''.''
      else
        (let stripped = dropWhile (\<lambda>c. c = CHR ''/'') (rev path);
             elem = rev (takeWhile (\<lambda>c. c \<noteq> CHR ''/'') stripped)
         in if elem = [] then ''/'' else elem))"

text \<open>
  \<^verbatim>\<open>filepath.Clean\<close> (Unix), by path elements: empty elements and \<^verbatim>\<open>.\<close> are dropped, an
  inner \<^verbatim>\<open>..\<close> removes the element before it, a \<^verbatim>\<open>..\<close> at the start of a rooted path is
  dropped and kept otherwise; the empty result is \<^verbatim>\<open>"."\<close>. The elements already written
  are kept in reverse order.
\<close>

fun splitSep :: "string \<Rightarrow> string list" where
  "splitSep [] = [[]]"
| "splitSep (c # cs) =
     (if c = CHR ''/'' then [] # splitSep cs
      else (case splitSep cs of
              [] \<Rightarrow> [[c]]
            | x # xs \<Rightarrow> (c # x) # xs))"

fun joinSep :: "string list \<Rightarrow> string" where
  "joinSep [] = []"
| "joinSep [x] = x"
| "joinSep (x # y # ys) = x @ ''/'' @ joinSep (y # ys)"

definition cleanStep :: "bool \<Rightarrow> string list \<Rightarrow> string \<Rightarrow> string list" where
  "cleanStep rooted out elem =
     (if elem = [] \<or> elem = ''.'' then out
      else if elem = ''..'' then
        (if out \<noteq> [] \<and> hd out \<noteq> ''..'' then tl out
         else if rooted then out
         else ''..'' # out)
      else elem # out)"

definition Clean :: "string \<Rightarrow> string" where
  "Clean path =
     (if path = [] then ''.''
      else
        (let rooted = (hd path = CHR ''/'');
             out = foldl (cleanStep rooted) [] (splitSep path);
             cleaned = (if rooted then ''/'' else []) @ joinSep (rev out)
         in if cleaned = [] then ''.'' else cleaned))"

text \<open>\<^verbatim>\<open>filepath.Join\<close>: leading empty elements are ignored, the rest is joined and cleaned.\<close>

fun Join :: "string list \<Rightarrow> string" where
  "Join [] = []"
| "Join (e # es) = (if e \<noteq> [] then Clean (joinSep (e # es)) else Join es)"

subsection \<open>Notions used in the proofs\<close>

text \<open>
  The number of separators in a text, the characters that neither end a path element nor
  start an extension, and texts with two separators in a row.
\<close>

definition slashes :: "string \<Rightarrow> nat" where
  "slashes s = length (filter (\<lambda>c. c = CHR ''/'') s)"

definition plainChar :: "char \<Rightarrow> bool" where
  "plainChar c = (c \<noteq> CHR ''/'' \<and> c \<noteq> CHR ''.'')"

fun adjacentSeps :: "string \<Rightarrow> bool" where
  "adjacentSeps (c # d # r) = ((c = CHR ''/'' \<and> d = CHR ''/'') \<or> adjacentSeps (d # r))"
| "adjacentSeps _ = False"

subsection \<open>The rule\<close>

text \<open>
  Lines 51 to 79 of \<^verbatim>\<open>transformApplyArgs\<close>: the URL to fetch and the file to write, from
  the parameter that matched.
\<close>

definition patchTarget :: "Context \<Rightarrow> string \<Rightarrow> string \<times> string" where
  "patchTarget ctx url =
     (let gist = (urlRegexp url = Some ''gist.'');
          url1 = stripFragment url;
          url2 = (if \<not> gist then
                    (case pullRegexp url1 of
                       Some (front, pull) \<Rightarrow> front @ pull
                     | None \<Rightarrow> url1)
                  else url1);
          ext = (if gist then ''.txt'' else ''.patch'');
          url3 = (if Ext url2 \<noteq> ext then url2 @ ext else url2);
          prefix = (if gist then ''gist-'' else []);
          patchFile = Join [TempDir ctx, prefix @ Base url3]
      in (url3, patchFile))"

text \<open>
  The loop over \<^verbatim>\<open>args.Params\<close>: the first parameter that matches \<^verbatim>\<open>urlRegexp\<close> is
  rewritten and the loop ends. The first argument is the part of the parameters still to
  visit.
\<close>

fun applyLoop :: "Context \<Rightarrow> string list \<Rightarrow> Args \<Rightarrow> Args outcome" where
  "applyLoop ctx [] args = Inr args"
| "applyLoop ctx (url # rest) args =
     (if urlRegexp url \<noteq> None then
        (let idx = IndexOfParam args url;
             (url3, patchFile) = patchTarget ctx url;
             args1 = Before args [''curl'', ''-#LA'', ''gh '' @ Version ctx, url3, ''-o'', patchFile]
         in if 0 \<le> idx \<and> idx < ParamsSize args1
            then Inr (args1\<lparr>Params := (Params args1)[nat idx := patchFile]\<rparr>)
            else Inl (IndexOutOfBound idx, args1))
      else applyLoop ctx rest args)"

definition transformApplyArgs :: "Context \<Rightarrow> Args \<Rightarrow> Args outcome" where
  "transformApplyArgs ctx args = applyLoop ctx (Params args) args"

definition apply_cmd :: "Context \<Rightarrow> Args \<Rightarrow> Args outcome" where
  "apply_cmd ctx args =
     (if \<not> IsParamsEmpty args then transformApplyArgs ctx args else Inr args)"

section \<open>The grammars and the URL builder\<close>

text \<open>
  Modelled from the spec: the constant \<^verbatim>\<open>OwnerRe\<close> is missing. Section 4.3, step 1 of
  the specification validates the trailing parameter against two grammars; the first is
  a bare owner, "a single token matching the owner-name character class". The
  specification does not list the class; the model takes the characters of a GitHub
  owner name: letters, digits and hyphens, the first one a letter or a digit.
  \<open>OwnerRe s\<close> says that the whole of \<open>s\<close> is such a token.
\<close>

definition OwnerRe :: "string \<Rightarrow> bool" where
  "OwnerRe s =
     (case s of
        [] \<Rightarrow> False
      | c # cs \<Rightarrow> isWord c \<and> c \<noteq> CHR ''_'' \<and>
          list_all (\<lambda>x. (isWord x \<and> x \<noteq> CHR ''_'') \<or> x = CHR ''-'') cs)"

text \<open>
  Modelled from the spec: the constant \<^verbatim>\<open>NameRe\<close> is missing. It is the token after the
  \<^verbatim>\<open>/\<close> of the second grammar of section 4.3, step 1, a repository name: letters,
  digits, underscores, dots and hyphens, the first one not a hyphen.
\<close>

definition NameRe :: "string \<Rightarrow> bool" where
  "NameRe s =
     (case s of
        [] \<Rightarrow> False
      | c # cs \<Rightarrow> (isWord c \<or> c = CHR ''.'') \<and>
          list_all (\<lambda>x. isWord x \<or> x = CHR ''.'' \<or> x = CHR ''-'') cs)"

text \<open>
  Modelled from the spec: the second grammar of section 4.3, step 1, "owner/name: two
  such tokens joined by \<^verbatim>\<open>/\<close>", as \<^verbatim>\<open>parseRepoNameOwner\<close> builds it from the two missing
  constants: \<^verbatim>\<open>^(OwnerRe)\/(NameRe)$\<close>. An owner holds no \<^verbatim>\<open>/\<close>, so the owner is the text
  in front of the first \<^verbatim>\<open>/\<close>.
\<close>

definition nameWithOwnerRe :: "string \<Rightarrow> (string \<times> string) option" where
  "nameWithOwnerRe s =
     (let owner = takeWhile (\<lambda>c. c \<noteq> CHR ''/'') s in
      case dropWhile (\<lambda>c. c \<noteq> CHR ''/'') s of
        [] \<Rightarrow> None
      | _ # name \<Rightarrow> if OwnerRe owner \<and> NameRe name then Some (owner, name) else None)"

text \<open>
  Modelled from the spec: \<^verbatim>\<open>Project.GitURL\<close> is missing. Section 4.3, step 7: public
  visibility gives a read-only URL scheme, private visibility an owner-scoped
  push-capable URL scheme. The read-only form is the one the help text of \<^verbatim>\<open>cmdRemote\<close>
  shows, \<^verbatim>\<open>git://HOST/OWNER/NAME.git\<close>; the push-capable form is the scp form
  \<^verbatim>\<open>git@HOST:OWNER/NAME.git\<close>. The host is that of the project.
\<close>

definition projectGitURL :: "Project \<Rightarrow> string \<Rightarrow> string \<Rightarrow> bool \<Rightarrow> string" where
  "projectGitURL project name owner isPrivate =
     (if isPrivate then ''git@'' @ Host project @ '':'' @ owner @ ''/'' @ name @ ''.git''
      else ''git://'' @ Host project @ ''/'' @ owner @ ''/'' @ name @ ''.git'')"

section \<open>A concrete context\<close>

text \<open>
  A context to run the rules in, after the examples of the help text of \<^verbatim>\<open>cmdRemote\<close>
  (\<^verbatim>\<open>git://github.com/jingweno/REPO.git\<close>): the user \<^verbatim>\<open>jingweno\<close> in a clone of the
  repository \<^verbatim>\<open>gh\<close> on \<^verbatim>\<open>github.com\<close>, with the grammars and the URL builder above.
  Words are the parameters that do not start with a hyphen; ASCII letters are lowered; a
  project with no host is on \<^verbatim>\<open>github.com\<close>. These three choices are used for evaluation
  only.
\<close>

definition sampleWords :: "string list \<Rightarrow> string list" where
  "sampleWords ps = filter (\<lambda>p. case p of [] \<Rightarrow> True | c # _ \<Rightarrow> c \<noteq> CHR ''-'') ps"

definition sampleToLower :: "string \<Rightarrow> string" where
  "sampleToLower s =
     map (\<lambda>c. case map_of (zip ''ABCDEFGHIJKLMNOPQRSTUVWXYZ'' ''abcdefghijklmnopqrstuvwxyz'') c of
                Some l \<Rightarrow> l
              | None \<Rightarrow> c) s"

definition sampleNewProject :: "string \<Rightarrow> string \<Rightarrow> string \<Rightarrow> Project" where
  "sampleNewProject owner name host =
     \<lparr>Name = name, Owner = owner, Host = (if host = [] then ''github.com'' else host)\<rparr>"

definition sampleContext :: Context where
  "sampleContext =
     \<lparr>ownerRegexp = OwnerRe,
      nameWithOwnerRegexp = nameWithOwnerRe,
      Words = sampleWords,
      ToLower = sampleToLower,
      LocalRepo = None,
      MainProject = Inr \<lparr>Name = ''gh'', Owner = ''jingweno'', Host = ''github.com''\<rparr>,
      RootDirName = Inr ''gh'',
      DefaultHost = Inr \<lparr>User = ''jingweno''\<rparr>,
      NewProject = sampleNewProject,
      GitURL = projectGitURL,
      GitHubHost = ''github.com'',
      TempDir = ''/tmp'',
      Version = ''1.0''\<rparr>"

definition invocation :: "string \<Rightarrow> string list \<Rightarrow> Args" where
  "invocation cmd ps = \<lparr>Command = cmd, Params = ps, beforeChain = [], Noop = False\<rparr>"

section \<open>Editing the parameters\<close>

lemma indexOf_None: "indexOf v ps = None \<longleftrightarrow> v \<notin> set ps"
  by (induction ps) auto

lemma indexOf_Some:
  "indexOf v ps = Some i \<Longrightarrow>
     i < length ps \<and> ps ! i = v \<and> take i ps @ drop (Suc i) ps = remove1 v ps"
  by (induction ps arbitrary: i) (auto split: if_splits)

lemma indexOf_first: "v \<notin> set pre \<Longrightarrow> indexOf v (pre @ v # post) = Some (length pre)"
  by (induction pre) auto

lemma parseRemotePrivateFlag_eq:
  "parseRemotePrivateFlag args
     = Inr (''-p'' \<in> set (Params args), args\<lparr>Params := remove1 ''-p'' (Params args)\<rparr>)"
proof (cases "indexOf ''-p'' (Params args)")
  case None
  then have "''-p'' \<notin> set (Params args)" by (simp add: indexOf_None)
  with None show ?thesis
    by (simp add: parseRemotePrivateFlag_def IndexOfParam_def remove1_idem)
next
  case (Some i)
  from indexOf_Some [OF Some] have "''-p'' \<in> set (Params args)"
    by (metis nth_mem)
  with Some indexOf_Some [OF Some] show ?thesis
    by (simp add: parseRemotePrivateFlag_def IndexOfParam_def RemoveParam_def ParamsSize_def)
qed

lemma RemoveParam_last:
  "Params args \<noteq> [] \<Longrightarrow>
     RemoveParam args (ParamsSize args - 1) = Inr (args\<lparr>Params := butlast (Params args)\<rparr>)"
proof -
  assume ne: "Params args \<noteq> []"
  have n: "nat (int (length (Params args)) - 1) = length (Params args) - 1" by arith
  from ne have "Suc (length (Params args) - 1) = length (Params args)" by simp
  with ne n show ?thesis
    by (simp add: RemoveParam_def ParamsSize_def butlast_conv_take)
qed

lemma RemoveParam_last_empty:
  "Params args = [] \<Longrightarrow> RemoveParam args (ParamsSize args - 1) = Inl (IndexOutOfBound (- 1))"
  by (simp add: RemoveParam_def ParamsSize_def)

lemma ReplaceParam_index:
  "indexOf v (Params args) = Some i \<Longrightarrow>
     ReplaceParam args (IndexOfParam args v) item = Inr (args\<lparr>Params := (Params args)[i := item]\<rparr>)"
  by (simp add: ReplaceParam_def IndexOfParam_def ParamsSize_def indexOf_Some)

lemma rewriteWords_Inr:
  assumes "rewriteWords ctx args hc owner name repoName = Inr (isPrivate, owner1, name1, args1)"
  shows "isPrivate = (''-p'' \<in> set (Params args))"
    and "owner1 = (if length (Words ctx (Params args)) = 2 \<and> Words ctx (Params args) ! 1 = ''origin''
                   then User hc else owner)"
    and "name1 = (if length (Words ctx (Params args)) = 2 \<and> Words ctx (Params args) ! 1 = ''origin''
                   then repoName else name)"
    and "\<exists>ps. args1 = args\<lparr>Params := ps\<rparr> \<and>
           (ps = remove1 ''-p'' (Params args)
            \<or> (\<exists>i. ps = (remove1 ''-p'' (Params args))[i := owner])
            \<or> ps = butlast (remove1 ''-p'' (Params args)))"
proof -
  let ?a1 = "args\<lparr>Params := remove1 ''-p'' (Params args)\<rparr>"
  have last: "RemoveParam ?a1 (ParamsSize ?a1 - 1) =
      (if remove1 ''-p'' (Params args) = [] then Inl (IndexOutOfBound (- 1))
       else Inr (args\<lparr>Params := butlast (remove1 ''-p'' (Params args))\<rparr>))"
    using RemoveParam_last [of ?a1] RemoveParam_last_empty [of ?a1] by simp
  have repl: "\<And>v. IndexOfParam ?a1 v \<noteq> - 1 \<Longrightarrow>
      \<exists>i. ReplaceParam ?a1 (IndexOfParam ?a1 v) owner
         = Inr (args\<lparr>Params := (remove1 ''-p'' (Params args))[i := owner]\<rparr>)"
  proof -
    fix v assume "IndexOfParam ?a1 v \<noteq> - 1"
    then obtain i where "indexOf v (Params ?a1) = Some i"
      by (auto simp: IndexOfParam_def split: option.splits)
    from ReplaceParam_index [OF this] show "\<exists>i. ReplaceParam ?a1 (IndexOfParam ?a1 v) owner
         = Inr (args\<lparr>Params := (remove1 ''-p'' (Params args))[i := owner]\<rparr>)"
      by auto
  qed
  note defs = rewriteWords_def parseRemotePrivateFlag_eq Let_def
  show "isPrivate = (''-p'' \<in> set (Params args))"
    using assms unfolding defs by (auto split: if_splits sum.splits)
  show "owner1 = (if length (Words ctx (Params args)) = 2 \<and> Words ctx (Params args) ! 1 = ''origin''
                   then User hc else owner)"
    using assms unfolding defs by (auto split: if_splits sum.splits)
  show "name1 = (if length (Words ctx (Params args)) = 2 \<and> Words ctx (Params args) ! 1 = ''origin''
                   then repoName else name)"
    using assms unfolding defs by (auto split: if_splits sum.splits)
  show "\<exists>ps. args1 = args\<lparr>Params := ps\<rparr> \<and>
           (ps = remove1 ''-p'' (Params args)
            \<or> (\<exists>i. ps = (remove1 ''-p'' (Params args))[i := owner])
            \<or> ps = butlast (remove1 ''-p'' (Params args)))"
  proof (cases "length (Words ctx (Params args)) = 2")
    case False
    with assms show ?thesis unfolding defs
      by (auto simp: last split: if_splits)
  next
    case True
    show ?thesis
    proof (cases "Words ctx (Params args) ! 1 = ''origin''")
      case True
      with \<open>length (Words ctx (Params args)) = 2\<close> assms show ?thesis
        unfolding defs by auto
    next
      case False
      show ?thesis
      proof (cases "IndexOfParam ?a1 (Words ctx (Params args) ! 1) = - 1")
        case True
        with False \<open>length (Words ctx (Params args)) = 2\<close> assms show ?thesis
          unfolding defs by auto
      next
        case nf: False
        from repl [OF nf] obtain i where
          "ReplaceParam ?a1 (IndexOfParam ?a1 (Words ctx (Params args) ! 1)) owner
             = Inr (args\<lparr>Params := (remove1 ''-p'' (Params args))[i := owner]\<rparr>)" by blast
        with nf False \<open>length (Words ctx (Params args)) = 2\<close> assms show ?thesis
          unfolding defs by auto
      qed
    qed
  qed
qed

section \<open>Unmatched invocations\<close>

lemma applyLoop_no_match:
  "\<forall>p \<in> set ps. urlRegexp p = None \<Longrightarrow> applyLoop ctx ps args = Inr args"
  by (induction ps) simp_all

lemma parse_no_match:
  "\<not> ownerRegexp ctx s \<Longrightarrow> nameWithOwnerRegexp ctx s = None \<Longrightarrow>
     parseRepoNameOwner ctx s = ([], [])"
  by (simp add: parseRepoNameOwner_def)

text \<open>
  C1: an invocation that no rule matches is left as it is. For \<^verbatim>\<open>remote\<close>: the parameter list
  is empty, or the first parameter is neither \<^verbatim>\<open>add\<close> nor \<^verbatim>\<open>set-url\<close>, or the trailing
  parameter matches neither the bare-owner nor the owner/name grammar. For \<^verbatim>\<open>apply\<close>: no
  parameter matches the URL pattern. The argument list returned equals the input, and with
  it the queue of prerequisite commands, so nothing is enqueued.
\<close>

theorem unmatched_invocation_unchanged:
  "(IsParamsEmpty rargs
      \<or> (FirstParam rargs \<noteq> ''add'' \<and> FirstParam rargs \<noteq> ''set-url'')
      \<or> (\<not> ownerRegexp ctx (LastParam rargs) \<and> nameWithOwnerRegexp ctx (LastParam rargs) = None)
     \<longrightarrow> remote ctx rargs = Inr rargs)
   \<and> ((\<forall>p \<in> set (Params aargs). urlRegexp p = None) \<longrightarrow> apply_cmd ctx aargs = Inr aargs)"
proof (intro conjI impI)
  assume "IsParamsEmpty rargs
      \<or> (FirstParam rargs \<noteq> ''add'' \<and> FirstParam rargs \<noteq> ''set-url'')
      \<or> (\<not> ownerRegexp ctx (LastParam rargs) \<and> nameWithOwnerRegexp ctx (LastParam rargs) = None)"
  then show "remote ctx rargs = Inr rargs"
    by (auto simp: remote_def transformRemoteArgs_def parse_no_match)
next
  assume "\<forall>p \<in> set (Params aargs). urlRegexp p = None"
  then show "apply_cmd ctx aargs = Inr aargs"
    by (simp add: apply_cmd_def transformApplyArgs_def applyLoop_no_match)
qed

lemma sample_url_no_owner: "\<not> OwnerRe ''git://github.com/a/b.git''"
  by (simp add: OwnerRe_def isWord_def)

lemma sample_url_no_pair: "nameWithOwnerRe ''git://github.com/a/b.git'' = None"
  by (simp add: nameWithOwnerRe_def OwnerRe_def isWord_def)

lemma local_file_no_url: "urlRegexp ''/tmp/55.patch'' = None"
  by (simp add: urlRegexp_def)

theorem unmatched_invocation_unchanged_witness:
  "remote sampleContext (invocation ''remote'' [''add'', ''-f'', ''git://github.com/a/b.git''])
     = Inr (invocation ''remote'' [''add'', ''-f'', ''git://github.com/a/b.git''])
   \<and> remote sampleContext (invocation ''remote'' [''show'', ''mislav'']) 
     = Inr (invocation ''remote'' [''show'', ''mislav''])
   \<and> remote sampleContext (invocation ''remote'' []) = Inr (invocation ''remote'' [])
   \<and> apply_cmd sampleContext (invocation ''apply'' [''--check'', ''/tmp/55.patch''])
     = Inr (invocation ''apply'' [''--check'', ''/tmp/55.patch''])"
  using unmatched_invocation_unchanged [of "invocation ''remote'' [''add'', ''-f'', ''git://github.com/a/b.git'']"
          sampleContext "invocation ''apply'' [''--check'', ''/tmp/55.patch'']"]
        unmatched_invocation_unchanged [of "invocation ''remote'' [''show'', ''mislav'']" sampleContext]
        unmatched_invocation_unchanged [of "invocation ''remote'' []" sampleContext]
  by (simp add: invocation_def LastParam_def FirstParam_def IsParamsEmpty_def sampleContext_def
        sample_url_no_owner sample_url_no_pair local_file_no_url urlRegexp_def)

section \<open>The remote rule: properties\<close>

lemma resolveRepoName_Inr:
  "resolveRepoName ctx args name = Inr (name1, repoName, host) \<longleftrightarrow>
     (name \<noteq> [] \<and> name1 = name \<and> repoName = [] \<and> host = [])
     \<or> (name = [] \<and> (\<exists>p. MainProject ctx = Inr p \<and> name1 = Name p \<and> repoName = Name p \<and> host = Host p))
     \<or> (name = [] \<and> (\<exists>e. MainProject ctx = Inl e) \<and> RootDirName ctx = Inr name1
          \<and> repoName = name1 \<and> host = [])"
  by (auto simp: resolveRepoName_def split: sum.splits)

lemma resolveRepoName_Inl:
  "resolveRepoName ctx args name = Inl f \<Longrightarrow> snd f = args"
  by (auto simp: resolveRepoName_def split: sum.splits if_splits)

lemma transformRemoteArgs_Inr:
  assumes "transformRemoteArgs ctx args = Inr args'"
    and "parseRepoNameOwner ctx (LastParam args) = (owner, name)" and "owner \<noteq> []"
  shows "\<exists>hc name1 repoName host isPrivate owner1 name2 args1.
           DefaultHost ctx = Inr hc
           \<and> resolveRepoName ctx args name = Inr (name1, repoName, host)
           \<and> rewriteWords ctx args hc owner name1 repoName = Inr (isPrivate, owner1, name2, args1)
           \<and> args' = appendRemoteURL ctx hc host isPrivate owner1 name2 args1"
  using assms
  by (auto simp: transformRemoteArgs_def split: option.splits sum.splits)

lemma remote_triggered:
  "\<not> IsParamsEmpty args \<Longrightarrow> FirstParam args = ''add'' \<or> FirstParam args = ''set-url'' \<Longrightarrow>
     remote ctx args = transformRemoteArgs ctx args"
  by (simp add: remote_def)

lemma remote_rewritten:
  assumes "\<not> IsParamsEmpty args" and "FirstParam args = ''add'' \<or> FirstParam args = ''set-url''"
    and "parseRepoNameOwner ctx (LastParam args) = (parsed, n)" and "parsed \<noteq> []"
    and "remote ctx args = Inr args'"
    and "DefaultHost ctx = Inr hc"
    and "owner = (if length (Words ctx (Params args)) = 2 \<and> Words ctx (Params args) ! 1 = ''origin''
                  then User hc else parsed)"
    and "finalOwner = (if ToLower ctx owner = ToLower ctx (User hc) then User hc else owner)"
  shows "\<exists>ps name host.
           args' = args\<lparr>Params := ps @ [GitURL ctx (NewProject ctx finalOwner name host) name finalOwner
              (''-p'' \<in> set (Params args)
               \<or> ToLower ctx owner = ToLower ctx (User hc)
               \<or> Host (NewProject ctx finalOwner name host) \<noteq> GitHubHost ctx)]\<rparr>
           \<and> (ps = remove1 ''-p'' (Params args)
              \<or> (\<exists>i. ps = (remove1 ''-p'' (Params args))[i := parsed])
              \<or> ps = butlast (remove1 ''-p'' (Params args)))"
proof -
  from assms(1,2,5) have t: "transformRemoteArgs ctx args = Inr args'"
    by (simp add: remote_triggered)
  from transformRemoteArgs_Inr [OF t assms(3,4)] assms(6)
  obtain name1 repoName host isPrivate owner1 name2 args1 where
    rw: "rewriteWords ctx args hc parsed name1 repoName = Inr (isPrivate, owner1, name2, args1)"
    and res: "args' = appendRemoteURL ctx hc host isPrivate owner1 name2 args1"
    by auto
  from rewriteWords_Inr(1) [OF rw] have p: "isPrivate = (''-p'' \<in> set (Params args))" .
  from rewriteWords_Inr(2) [OF rw] assms(7) have o: "owner1 = owner" by simp
  from rewriteWords_Inr(4) [OF rw] obtain ps where
    a1: "args1 = args\<lparr>Params := ps\<rparr>"
    and ps: "ps = remove1 ''-p'' (Params args)
              \<or> (\<exists>i. ps = (remove1 ''-p'' (Params args))[i := parsed])
              \<or> ps = butlast (remove1 ''-p'' (Params args))"
    by blast
  have "args' = args\<lparr>Params := ps @ [GitURL ctx (NewProject ctx finalOwner name2 host) name2 finalOwner
              (''-p'' \<in> set (Params args)
               \<or> ToLower ctx owner = ToLower ctx (User hc)
               \<or> Host (NewProject ctx finalOwner name2 host) \<noteq> GitHubHost ctx)]\<rparr>"
    unfolding res a1 p o assms(8)
    by (simp add: appendRemoteURL_def AppendParams_def Let_def)
  with ps show ?thesis by blast
qed

lemmas sample_defs =
  sampleContext_def OwnerRe_def NameRe_def nameWithOwnerRe_def sampleWords_def
  sampleToLower_def sampleNewProject_def projectGitURL_def invocation_def isWord_def

lemmas remote_defs =
  remote_def transformRemoteArgs_def parseRepoNameOwner_def resolveRepoName_def
  rewriteWords_def parseRemotePrivateFlag_def appendRemoteURL_def
  IsParamsEmpty_def FirstParam_def LastParam_def IndexOfParam_def ParamsSize_def
  ReplaceParam_def RemoveParam_def AppendParams_def Let_def

lemma sample_remote_runs:
  "remote sampleContext (invocation ''remote'' [''add'', ''origin''])
     = Inr (invocation ''remote'' [''add'', ''origin'', ''git@github.com:jingweno/gh.git''])"
  "remote sampleContext (invocation ''remote'' [''add'', ''-p'', ''mislav/hub''])
     = Inr (invocation ''remote'' [''add'', ''mislav'', ''git@github.com:mislav/hub.git''])"
  "remote sampleContext (invocation ''remote'' [''add'', ''JingWeno/hub''])
     = Inr (invocation ''remote'' [''add'', ''JingWeno'', ''git@github.com:jingweno/hub.git''])"
  "remote sampleContext (invocation ''remote'' [''add'', ''origin'', ''foo/bar''])
     = Inr (invocation ''remote'' [''add'', ''origin'', ''git://github.com/foo/bar.git''])"
  "remote sampleContext (invocation ''remote'' [''add'', ''mislav''])
     = Inr (invocation ''remote'' [''add'', ''mislav'', ''git://github.com/mislav/gh.git''])"
  "remote sampleContext (invocation ''remote'' [''add'', ''mislav/hub''])
     = Inr (invocation ''remote'' [''add'', ''mislav'', ''git://github.com/mislav/hub.git''])"
  by (simp_all add: remote_defs sample_defs)

lemma sample_parses:
  "parseRepoNameOwner sampleContext ''origin'' = (''origin'', [])"
  "parseRepoNameOwner sampleContext ''mislav'' = (''mislav'', [])"
  "parseRepoNameOwner sampleContext ''mislav/hub'' = (''mislav'', ''hub'')"
  "parseRepoNameOwner sampleContext ''JingWeno/hub'' = (''JingWeno'', ''hub'')"
  "parseRepoNameOwner sampleContext ''foo/bar'' = (''foo'', ''bar'')"
  by (simp_all add: parseRepoNameOwner_def sample_defs)

subsection \<open>The origin special case\<close>

text \<open>
  C2, as amended: when the words of a \<^verbatim>\<open>remote add\<close> or \<^verbatim>\<open>remote set-url\<close> invocation are
  exactly the sub-key and the literal \<^verbatim>\<open>origin\<close>, and \<^verbatim>\<open>origin\<close> is the trailing parameter,
  the URL is built for the authenticated user as owner and the resolved name of the
  current repository (that of the main project, else the name of the root directory),
  with the private scheme; the only other change is that a \<^verbatim>\<open>-p\<close> flag is removed.
  The substitution depends on the number of words, so it does not apply when further
  words follow \<^verbatim>\<open>origin\<close>.
\<close>

theorem remote_origin_special_case:
  assumes "FirstParam args = ''add'' \<or> FirstParam args = ''set-url''"
    and "LastParam args = ''origin''"
    and "ownerRegexp ctx ''origin''"
    and "Words ctx (Params args) = [k, ''origin'']"
    and "LocalRepo ctx = None" and "DefaultHost ctx = Inr hc"
    and "(MainProject ctx = Inr p \<and> repo = Name p \<and> host = Host p)
         \<or> (MainProject ctx = Inl e \<and> RootDirName ctx = Inr repo \<and> host = [])"
  shows "remote ctx args
           = Inr (args\<lparr>Params := remove1 ''-p'' (Params args)
                   @ [GitURL ctx (NewProject ctx (User hc) repo host) repo (User hc) True]\<rparr>)"
proof -
  from assms(2) have ne: "\<not> IsParamsEmpty args"
    by (auto simp: LastParam_def IsParamsEmpty_def split: if_splits)
  have parse: "parseRepoNameOwner ctx (LastParam args) = (''origin'', [])"
    using assms(2,3) by (simp add: parseRepoNameOwner_def)
  have res: "resolveRepoName ctx args [] = Inr (repo, repo, host)"
    using assms(7) by (auto simp: resolveRepoName_def)
  have rw: "rewriteWords ctx args hc ''origin'' repo repo
              = Inr (''-p'' \<in> set (Params args), User hc, repo,
                     args\<lparr>Params := remove1 ''-p'' (Params args)\<rparr>)"
    using assms(4) by (simp add: rewriteWords_def parseRemotePrivateFlag_eq)
  show ?thesis
    using ne assms(1,5,6) parse res rw
    by (simp add: remote_def transformRemoteArgs_def appendRemoteURL_def AppendParams_def Let_def)
qed

theorem remote_origin_special_case_witness:
  "remote sampleContext (invocation ''remote'' [''set-url'', ''-p'', ''origin''])
     = Inr ((invocation ''remote'' [''set-url'', ''-p'', ''origin''])
         \<lparr>Params := [''set-url'', ''origin'',
            GitURL sampleContext (NewProject sampleContext ''jingweno'' ''gh'' ''github.com'')
              ''gh'' ''jingweno'' True]\<rparr>)"
proof -
  let ?args = "invocation ''remote'' [''set-url'', ''-p'', ''origin'']"
  have "FirstParam ?args = ''add'' \<or> FirstParam ?args = ''set-url''"
    "LastParam ?args = ''origin''"
    "ownerRegexp sampleContext ''origin''"
    "Words sampleContext (Params ?args) = [''set-url'', ''origin'']"
    "LocalRepo sampleContext = None"
    "DefaultHost sampleContext = Inr \<lparr>User = ''jingweno''\<rparr>"
    "(MainProject sampleContext = Inr \<lparr>Name = ''gh'', Owner = ''jingweno'', Host = ''github.com''\<rparr>
        \<and> ''gh'' = Name \<lparr>Name = ''gh'', Owner = ''jingweno'', Host = ''github.com''\<rparr>
        \<and> ''github.com'' = Host \<lparr>Name = ''gh'', Owner = ''jingweno'', Host = ''github.com''\<rparr>)
     \<or> (MainProject sampleContext = Inl [] \<and> RootDirName sampleContext = Inr ''gh'' \<and> ''github.com'' = [])"
    by (simp_all add: FirstParam_def LastParam_def sample_defs)
  from remote_origin_special_case [OF this] show ?thesis
    by (simp add: invocation_def)
qed

text \<open>
  The claim as stated fails on \<^verbatim>\<open>remote add origin foo/bar\<close>: there are three words, the
  trailing parameter is dropped and the URL is built for the owner \<^verbatim>\<open>foo\<close> and the name
  \<^verbatim>\<open>bar\<close>, not for the user \<^verbatim>\<open>jingweno\<close> and the repository \<^verbatim>\<open>gh\<close>.
\<close>

theorem remote_origin_counterexample:
  "remote sampleContext (invocation ''remote'' [''add'', ''origin'', ''foo/bar''])
     = Inr (invocation ''remote'' [''add'', ''origin'',
         GitURL sampleContext (NewProject sampleContext ''foo'' ''bar'' []) ''bar'' ''foo'' False])
   \<and> DefaultHost sampleContext = Inr \<lparr>User = ''jingweno''\<rparr>
   \<and> MainProject sampleContext = Inr \<lparr>Name = ''gh'', Owner = ''jingweno'', Host = ''github.com''\<rparr>
   \<and> GitURL sampleContext (NewProject sampleContext ''foo'' ''bar'' []) ''bar'' ''foo'' False
       = ''git://github.com/foo/bar.git''
   \<and> GitURL sampleContext (NewProject sampleContext ''jingweno'' ''gh'' ''github.com'')
         ''gh'' ''jingweno'' True = ''git@github.com:jingweno/gh.git''
   \<and> GitURL sampleContext (NewProject sampleContext ''jingweno'' ''gh'' ''github.com'')
         ''gh'' ''jingweno'' False = ''git://github.com/jingweno/gh.git''
   \<and> remote sampleContext (invocation ''remote'' [''add'', ''origin'', ''foo/bar''])
     \<noteq> Inr (invocation ''remote'' [''add'', ''origin'', ''git@github.com:jingweno/gh.git''])
   \<and> remote sampleContext (invocation ''remote'' [''add'', ''origin'', ''foo/bar''])
     \<noteq> Inr (invocation ''remote'' [''add'', ''origin'', ''git://github.com/jingweno/gh.git''])"
  by (simp add: sample_remote_runs) (simp add: sample_defs)

subsection \<open>Visibility\<close>

text \<open>
  C3, as amended: for every invocation the remote rule transforms, the boolean handed to
  \<^verbatim>\<open>GitURL\<close> is true if and only if a \<^verbatim>\<open>-p\<close> parameter was present (its first occurrence
  is then removed from the parameters), or the owner in use equals the authenticated user
  ignoring case, or the host of the project differs from \<^verbatim>\<open>github.GitHubHost\<close>. The owner
  in use is the parsed owner, except in the \<^verbatim>\<open>origin\<close> special case, where it is the
  authenticated user itself, so that the boolean is always true there.
\<close>

theorem remote_visibility:
  assumes "\<not> IsParamsEmpty args" and "FirstParam args = ''add'' \<or> FirstParam args = ''set-url''"
    and "parseRepoNameOwner ctx (LastParam args) = (parsed, n)" and "parsed \<noteq> []"
    and "remote ctx args = Inr args'"
    and "DefaultHost ctx = Inr hc"
    and "owner = (if length (Words ctx (Params args)) = 2 \<and> Words ctx (Params args) ! 1 = ''origin''
                  then User hc else parsed)"
    and "finalOwner = (if ToLower ctx owner = ToLower ctx (User hc) then User hc else owner)"
  shows "\<exists>ps name host.
           args' = args\<lparr>Params := ps @ [GitURL ctx (NewProject ctx finalOwner name host) name finalOwner
              (''-p'' \<in> set (Params args)
               \<or> ToLower ctx owner = ToLower ctx (User hc)
               \<or> Host (NewProject ctx finalOwner name host) \<noteq> GitHubHost ctx)]\<rparr>
           \<and> (ps = remove1 ''-p'' (Params args)
              \<or> (\<exists>i. ps = (remove1 ''-p'' (Params args))[i := parsed])
              \<or> ps = butlast (remove1 ''-p'' (Params args)))"
  using assms by (rule remote_rewritten)

theorem remote_visibility_witness:
  "\<exists>ps name host.
     invocation ''remote'' [''add'', ''mislav'', ''git@github.com:mislav/hub.git'']
       = (invocation ''remote'' [''add'', ''-p'', ''mislav/hub''])
           \<lparr>Params := ps @ [GitURL sampleContext (NewProject sampleContext ''mislav'' name host)
              name ''mislav''
              (''-p'' \<in> set (Params (invocation ''remote'' [''add'', ''-p'', ''mislav/hub'']))
               \<or> ToLower sampleContext ''mislav'' = ToLower sampleContext ''jingweno''
               \<or> Host (NewProject sampleContext ''mislav'' name host) \<noteq> GitHubHost sampleContext)]\<rparr>
     \<and> (ps = remove1 ''-p'' (Params (invocation ''remote'' [''add'', ''-p'', ''mislav/hub'']))
        \<or> (\<exists>i. ps = (remove1 ''-p'' (Params (invocation ''remote'' [''add'', ''-p'', ''mislav/hub''])))
                       [i := ''mislav''])
        \<or> ps = butlast (remove1 ''-p'' (Params (invocation ''remote'' [''add'', ''-p'', ''mislav/hub'']))))"
proof -
  let ?args = "invocation ''remote'' [''add'', ''-p'', ''mislav/hub'']"
  have "\<not> IsParamsEmpty ?args" "FirstParam ?args = ''add'' \<or> FirstParam ?args = ''set-url''"
    "parseRepoNameOwner sampleContext (LastParam ?args) = (''mislav'', ''hub'')" "''mislav'' \<noteq> []"
    "remote sampleContext ?args
       = Inr (invocation ''remote'' [''add'', ''mislav'', ''git@github.com:mislav/hub.git''])"
    "DefaultHost sampleContext = Inr \<lparr>User = ''jingweno''\<rparr>"
    "''mislav'' = (if length (Words sampleContext (Params ?args)) = 2
                      \<and> Words sampleContext (Params ?args) ! 1 = ''origin''
                   then User \<lparr>User = ''jingweno''\<rparr> else ''mislav'')"
    "''mislav'' = (if ToLower sampleContext ''mislav'' = ToLower sampleContext (User \<lparr>User = ''jingweno''\<rparr>)
                   then User \<lparr>User = ''jingweno''\<rparr> else ''mislav'')"
    by (simp_all add: sample_remote_runs)
       (simp_all add: IsParamsEmpty_def FirstParam_def LastParam_def parseRepoNameOwner_def sample_defs)
  from remote_visibility [OF this] show ?thesis
    by simp
qed

text \<open>
  The claim as stated, with the parsed owner, fails on \<^verbatim>\<open>remote add origin\<close>: no \<^verbatim>\<open>-p\<close>,
  the parsed owner \<^verbatim>\<open>origin\<close> is not the user \<^verbatim>\<open>jingweno\<close>, the host is the default one,
  and the URL is built with the boolean true.
\<close>

theorem remote_visibility_counterexample:
  "remote sampleContext (invocation ''remote'' [''add'', ''origin''])
     = Inr (invocation ''remote'' [''add'', ''origin'',
         GitURL sampleContext (NewProject sampleContext ''jingweno'' ''gh'' ''github.com'')
           ''gh'' ''jingweno'' True])
   \<and> GitURL sampleContext (NewProject sampleContext ''jingweno'' ''gh'' ''github.com'')
           ''gh'' ''jingweno'' True
     \<noteq> GitURL sampleContext (NewProject sampleContext ''jingweno'' ''gh'' ''github.com'')
           ''gh'' ''jingweno'' False
   \<and> ''-p'' \<notin> set (Params (invocation ''remote'' [''add'', ''origin'']))
   \<and> parseRepoNameOwner sampleContext (LastParam (invocation ''remote'' [''add'', ''origin'']))
       = (''origin'', [])
   \<and> DefaultHost sampleContext = Inr \<lparr>User = ''jingweno''\<rparr>
   \<and> ToLower sampleContext ''origin'' \<noteq> ToLower sampleContext ''jingweno''
   \<and> Host (NewProject sampleContext ''jingweno'' ''gh'' ''github.com'') = GitHubHost sampleContext"
  by (simp add: sample_remote_runs) (simp add: remote_defs sample_defs)

subsection \<open>A bare owner\<close>

text \<open>
  C5, as amended: for \<^verbatim>\<open>remote add NAME\<close> (or \<^verbatim>\<open>set-url\<close>) with no flag, where \<^verbatim>\<open>NAME\<close>
  matches the bare-owner grammar and is not the literal \<^verbatim>\<open>origin\<close>, and the current
  repository resolves to \<open>repo\<close>, the resulting parameters are the sub-key, \<^verbatim>\<open>NAME\<close> and
  the URL. The URL is built for the name \<open>repo\<close> and the owner \<^verbatim>\<open>NAME\<close>, or the
  authenticated user in the stored casing when \<^verbatim>\<open>NAME\<close> equals it ignoring case; the
  scheme is the public one unless \<^verbatim>\<open>NAME\<close> equals the authenticated user ignoring case or
  the host of the project is not \<^verbatim>\<open>github.GitHubHost\<close>.
\<close>

theorem remote_add_bare_owner:
  assumes "k = ''add'' \<or> k = ''set-url''"
    and "Params args = [k, NAME]"
    and "ownerRegexp ctx NAME" and "NAME \<noteq> []" and "NAME \<noteq> ''origin''" and "NAME \<noteq> ''-p''"
    and "Words ctx [k, NAME] = [k, NAME]"
    and "LocalRepo ctx = None" and "DefaultHost ctx = Inr hc"
    and "(MainProject ctx = Inr p \<and> repo = Name p \<and> host = Host p)
         \<or> (MainProject ctx = Inl e \<and> RootDirName ctx = Inr repo \<and> host = [])"
    and "owner = (if ToLower ctx NAME = ToLower ctx (User hc) then User hc else NAME)"
  shows "remote ctx args
           = Inr (args\<lparr>Params := [k, NAME,
                   GitURL ctx (NewProject ctx owner repo host) repo owner
                     (ToLower ctx NAME = ToLower ctx (User hc)
                      \<or> Host (NewProject ctx owner repo host) \<noteq> GitHubHost ctx)]\<rparr>)"
proof -
  have parse: "parseRepoNameOwner ctx (LastParam args) = (NAME, [])"
    using assms(2,3) by (simp add: parseRepoNameOwner_def LastParam_def)
  have res: "resolveRepoName ctx args [] = Inr (repo, repo, host)"
    using assms(10) by (auto simp: resolveRepoName_def)
  have rw: "rewriteWords ctx args hc NAME repo repo
              = Inr (False, NAME, repo, args\<lparr>Params := [k, NAME]\<rparr>)"
    using assms(1,2,5,6,7)
    by (auto simp: rewriteWords_def parseRemotePrivateFlag_eq IndexOfParam_def
        ReplaceParam_def ParamsSize_def)
  show ?thesis
    using assms(1,2,4,8,9,11) parse res rw
    by (auto simp: remote_def transformRemoteArgs_def appendRemoteURL_def AppendParams_def
        IsParamsEmpty_def FirstParam_def Let_def)
qed

theorem remote_add_bare_owner_witness:
  "remote sampleContext (invocation ''remote'' [''add'', ''mislav''])
     = Inr ((invocation ''remote'' [''add'', ''mislav''])
         \<lparr>Params := [''add'', ''mislav'',
            GitURL sampleContext (NewProject sampleContext ''mislav'' ''gh'' ''github.com'')
              ''gh'' ''mislav'' False]\<rparr>)"
proof -
  let ?args = "invocation ''remote'' [''add'', ''mislav'']"
  have "''add'' = ''add'' \<or> ''add'' = ''set-url''"
    "Params ?args = [''add'', ''mislav'']"
    "ownerRegexp sampleContext ''mislav''" "''mislav'' \<noteq> []" "''mislav'' \<noteq> ''origin''"
    "''mislav'' \<noteq> ''-p''"
    "Words sampleContext [''add'', ''mislav''] = [''add'', ''mislav'']"
    "LocalRepo sampleContext = None"
    "DefaultHost sampleContext = Inr \<lparr>User = ''jingweno''\<rparr>"
    "(MainProject sampleContext = Inr \<lparr>Name = ''gh'', Owner = ''jingweno'', Host = ''github.com''\<rparr>
        \<and> ''gh'' = Name \<lparr>Name = ''gh'', Owner = ''jingweno'', Host = ''github.com''\<rparr>
        \<and> ''github.com'' = Host \<lparr>Name = ''gh'', Owner = ''jingweno'', Host = ''github.com''\<rparr>)
     \<or> (MainProject sampleContext = Inl [] \<and> RootDirName sampleContext = Inr ''gh'' \<and> ''github.com'' = [])"
    "''mislav'' = (if ToLower sampleContext ''mislav'' = ToLower sampleContext (User \<lparr>User = ''jingweno''\<rparr>)
                   then User \<lparr>User = ''jingweno''\<rparr> else ''mislav'')"
    by (simp_all add: sample_defs)
  from remote_add_bare_owner [OF this] show ?thesis
    by (simp add: sample_defs)
qed

text \<open>
  The claim as stated fails in three ways: \<^verbatim>\<open>remote add mislav\<close> keeps \<^verbatim>\<open>mislav\<close> in front
  of the URL; \<^verbatim>\<open>remote add origin\<close> builds the URL for the user \<^verbatim>\<open>jingweno\<close>, with the
  private scheme; and in a clone from another host the URL for \<^verbatim>\<open>mislav\<close> has the private
  scheme although \<^verbatim>\<open>mislav\<close> is not the user.
\<close>

theorem remote_add_bare_owner_counterexample:
  "remote sampleContext (invocation ''remote'' [''add'', ''mislav''])
     = Inr (invocation ''remote'' [''add'', ''mislav'', ''git://github.com/mislav/gh.git''])
   \<and> remote sampleContext (invocation ''remote'' [''add'', ''origin''])
     = Inr (invocation ''remote'' [''add'', ''origin'', ''git@github.com:jingweno/gh.git''])
   \<and> remote (sampleContext\<lparr>MainProject :=
          Inr \<lparr>Name = ''gh'', Owner = ''jingweno'', Host = ''git.example.com''\<rparr>\<rparr>)
        (invocation ''remote'' [''add'', ''mislav''])
     = Inr (invocation ''remote'' [''add'', ''mislav'', ''git@git.example.com:mislav/gh.git''])
   \<and> ownerRegexp sampleContext ''mislav'' \<and> ownerRegexp sampleContext ''origin''
   \<and> ToLower sampleContext ''mislav'' \<noteq> ToLower sampleContext ''jingweno''
   \<and> ToLower sampleContext ''origin'' \<noteq> ToLower sampleContext ''jingweno''
   \<and> GitURL sampleContext (NewProject sampleContext ''origin'' ''gh'' ''github.com'')
        ''gh'' ''origin'' False = ''git://github.com/origin/gh.git''
   \<and> GitURL sampleContext (NewProject sampleContext ''mislav'' ''gh'' ''git.example.com'')
        ''gh'' ''mislav'' False = ''git://git.example.com/mislav/gh.git''
   \<and> remote sampleContext (invocation ''remote'' [''add'', ''mislav''])
     \<noteq> Inr (invocation ''remote'' [''add'', ''git://github.com/mislav/gh.git''])
   \<and> remote sampleContext (invocation ''remote'' [''add'', ''origin''])
     \<noteq> Inr (invocation ''remote'' [''add'', ''origin'', ''git://github.com/origin/gh.git''])"
  by (simp add: sample_remote_runs) (simp add: remote_defs sample_defs)

subsection \<open>Owner and name\<close>

text \<open>
  C6, as amended: for \<^verbatim>\<open>remote add OWNER/NAME\<close> (or \<^verbatim>\<open>set-url\<close>) with no other parameter,
  the sub-key is kept, the token \<^verbatim>\<open>OWNER/NAME\<close> is replaced in place by \<^verbatim>\<open>OWNER\<close>, and the
  URL is appended. \<^verbatim>\<open>NAME\<close> passes unchanged into the URL; \<^verbatim>\<open>OWNER\<close> does too unless it
  equals the authenticated user ignoring case, in which case the user's stored casing is
  used. No local project is consulted: the host handed to \<^verbatim>\<open>NewProject\<close> is empty.
\<close>

theorem remote_add_owner_name:
  assumes "k = ''add'' \<or> k = ''set-url''"
    and "Params args = [k, t]"
    and "\<not> ownerRegexp ctx t" and "nameWithOwnerRegexp ctx t = Some (OWNER, NAME)"
    and "OWNER \<noteq> []" and "NAME \<noteq> []" and "t \<noteq> ''origin''" and "t \<noteq> ''-p''" and "t \<noteq> k"
    and "Words ctx [k, t] = [k, t]"
    and "LocalRepo ctx = None" and "DefaultHost ctx = Inr hc"
    and "owner = (if ToLower ctx OWNER = ToLower ctx (User hc) then User hc else OWNER)"
  shows "remote ctx args
           = Inr (args\<lparr>Params := [k, OWNER,
                   GitURL ctx (NewProject ctx owner NAME []) NAME owner
                     (ToLower ctx OWNER = ToLower ctx (User hc)
                      \<or> Host (NewProject ctx owner NAME []) \<noteq> GitHubHost ctx)]\<rparr>)"
proof -
  have parse: "parseRepoNameOwner ctx (LastParam args) = (OWNER, NAME)"
    using assms(2,3,4) by (simp add: parseRepoNameOwner_def LastParam_def)
  have res: "resolveRepoName ctx args NAME = Inr (NAME, [], [])"
    using assms(6) by (simp add: resolveRepoName_def)
  have rw: "rewriteWords ctx args hc OWNER NAME []
              = Inr (False, OWNER, NAME, args\<lparr>Params := [k, OWNER]\<rparr>)"
    using assms(1,2,7,8,9,10)
    by (auto simp: rewriteWords_def parseRemotePrivateFlag_eq IndexOfParam_def
        ReplaceParam_def ParamsSize_def)
  show ?thesis
    using assms(1,2,5,11,12,13) parse res rw
    by (auto simp: remote_def transformRemoteArgs_def appendRemoteURL_def AppendParams_def
        IsParamsEmpty_def FirstParam_def Let_def)
qed

theorem remote_add_owner_name_witness:
  "remote sampleContext (invocation ''remote'' [''add'', ''mislav/hub''])
     = Inr ((invocation ''remote'' [''add'', ''mislav/hub''])
         \<lparr>Params := [''add'', ''mislav'',
            GitURL sampleContext (NewProject sampleContext ''mislav'' ''hub'' [])
              ''hub'' ''mislav'' False]\<rparr>)"
proof -
  let ?args = "invocation ''remote'' [''add'', ''mislav/hub'']"
  have "''add'' = ''add'' \<or> ''add'' = ''set-url''"
    "Params ?args = [''add'', ''mislav/hub'']"
    "\<not> ownerRegexp sampleContext ''mislav/hub''"
    "nameWithOwnerRegexp sampleContext ''mislav/hub'' = Some (''mislav'', ''hub'')"
    "''mislav'' \<noteq> []" "''hub'' \<noteq> []" "''mislav/hub'' \<noteq> ''origin''"
    "''mislav/hub'' \<noteq> ''-p''" "''mislav/hub'' \<noteq> ''add''"
    "Words sampleContext [''add'', ''mislav/hub''] = [''add'', ''mislav/hub'']"
    "LocalRepo sampleContext = None"
    "DefaultHost sampleContext = Inr \<lparr>User = ''jingweno''\<rparr>"
    "''mislav'' = (if ToLower sampleContext ''mislav'' = ToLower sampleContext (User \<lparr>User = ''jingweno''\<rparr>)
                   then User \<lparr>User = ''jingweno''\<rparr> else ''mislav'')"
    by (simp_all add: sample_defs)
  from remote_add_owner_name [OF this] show ?thesis
    by (simp add: sample_defs)
qed

text \<open>
  The claim as stated fails on \<^verbatim>\<open>remote add mislav/hub\<close>, where the token \<^verbatim>\<open>mislav/hub\<close>
  becomes \<^verbatim>\<open>mislav\<close>, and on \<^verbatim>\<open>remote add JingWeno/hub\<close>, where the URL holds
  \<^verbatim>\<open>jingweno\<close>.
\<close>

theorem remote_add_owner_name_counterexample:
  "remote sampleContext (invocation ''remote'' [''add'', ''mislav/hub''])
     = Inr (invocation ''remote'' [''add'', ''mislav'', ''git://github.com/mislav/hub.git''])
   \<and> remote sampleContext (invocation ''remote'' [''add'', ''JingWeno/hub''])
     = Inr (invocation ''remote'' [''add'', ''JingWeno'', ''git@github.com:jingweno/hub.git''])
   \<and> parseRepoNameOwner sampleContext ''mislav/hub'' = (''mislav'', ''hub'')
   \<and> parseRepoNameOwner sampleContext ''JingWeno/hub'' = (''JingWeno'', ''hub'')
   \<and> GitURL sampleContext (NewProject sampleContext ''JingWeno'' ''hub'' []) ''hub'' ''JingWeno'' True
       = ''git@github.com:JingWeno/hub.git''
   \<and> remote sampleContext (invocation ''remote'' [''add'', ''mislav/hub''])
     \<noteq> Inr (invocation ''remote'' [''add'', ''mislav/hub'', ''git://github.com/mislav/hub.git''])
   \<and> remote sampleContext (invocation ''remote'' [''add'', ''JingWeno/hub''])
     \<noteq> Inr (invocation ''remote'' [''add'', ''JingWeno'', ''git@github.com:JingWeno/hub.git''])"
  by (simp add: sample_remote_runs sample_parses) (simp add: sample_defs)

subsection \<open>A failing configuration\<close>

text \<open>
  C8: when the rule applies (sub-key \<^verbatim>\<open>add\<close> or \<^verbatim>\<open>set-url\<close>, trailing parameter with a
  non-empty owner) and \<^verbatim>\<open>DefaultHost()\<close> fails, the run aborts, and the argument list at
  the abort is the input: no parameter replaced, removed or appended, no prerequisite
  enqueued. When the local repository and the repository name resolve, the failure is the
  configuration error.
\<close>

theorem remote_config_failure:
  assumes "\<not> IsParamsEmpty args" and "FirstParam args = ''add'' \<or> FirstParam args = ''set-url''"
    and "fst (parseRepoNameOwner ctx (LastParam args)) \<noteq> []"
    and "DefaultHost ctx = Inl err"
  shows "(\<exists>f. remote ctx args = Inl (f, args))
    \<and> (LocalRepo ctx = None
         \<and> (snd (parseRepoNameOwner ctx (LastParam args)) \<noteq> []
            \<or> (\<exists>p. MainProject ctx = Inr p) \<or> (\<exists>d. RootDirName ctx = Inr d))
       \<longrightarrow> remote ctx args = Inl (ConfigurationError err, args))"
  using assms
  by (auto simp: remote_def transformRemoteArgs_def resolveRepoName_def
      split: prod.splits option.splits sum.splits)

theorem remote_config_failure_witness:
  "remote (sampleContext\<lparr>DefaultHost := Inl ''no default host''\<rparr>)
       (invocation ''remote'' [''add'', ''mislav''])
     = Inl (ConfigurationError ''no default host'', invocation ''remote'' [''add'', ''mislav''])"
proof -
  let ?ctx = "sampleContext\<lparr>DefaultHost := Inl ''no default host''\<rparr>"
  let ?args = "invocation ''remote'' [''add'', ''mislav'']"
  have p: "parseRepoNameOwner ?ctx (LastParam ?args) = (''mislav'', [])"
    by (simp add: parseRepoNameOwner_def LastParam_def sample_defs)
  have "\<not> IsParamsEmpty ?args" "FirstParam ?args = ''add'' \<or> FirstParam ?args = ''set-url''"
    "fst (parseRepoNameOwner ?ctx (LastParam ?args)) \<noteq> []"
    "DefaultHost ?ctx = Inl ''no default host''"
    by (simp_all add: p) (simp_all add: IsParamsEmpty_def FirstParam_def sample_defs)
  from remote_config_failure [OF this] show ?thesis
    by (simp add: p) (simp add: sample_defs)
qed

subsection \<open>The casing of the owner\<close>

text \<open>
  C10: when the parsed owner equals the authenticated user ignoring case, the owner
  handed to \<^verbatim>\<open>NewProject\<close> and \<^verbatim>\<open>GitURL\<close> is the authenticated user as stored, whatever
  casing was typed.
\<close>

theorem remote_owner_casing:
  assumes "\<not> IsParamsEmpty args" and "FirstParam args = ''add'' \<or> FirstParam args = ''set-url''"
    and "parseRepoNameOwner ctx (LastParam args) = (parsed, n)" and "parsed \<noteq> []"
    and "remote ctx args = Inr args'"
    and "DefaultHost ctx = Inr hc"
    and "ToLower ctx parsed = ToLower ctx (User hc)"
  shows "\<exists>ps name host.
           args' = args\<lparr>Params := ps @ [GitURL ctx (NewProject ctx (User hc) name host) name (User hc) True]\<rparr>"
proof -
  let ?owner = "if length (Words ctx (Params args)) = 2 \<and> Words ctx (Params args) ! 1 = ''origin''
                then User hc else parsed"
  from assms(7) have same: "ToLower ctx ?owner = ToLower ctx (User hc)" by simp
  from remote_rewritten [OF assms(1-6) refl refl] same show ?thesis
    by auto
qed

theorem remote_owner_casing_witness:
  "\<exists>ps name host.
     invocation ''remote'' [''add'', ''JingWeno'', ''git@github.com:jingweno/hub.git'']
       = (invocation ''remote'' [''add'', ''JingWeno/hub''])
           \<lparr>Params := ps @ [GitURL sampleContext
              (NewProject sampleContext (User \<lparr>User = ''jingweno''\<rparr>) name host)
              name (User \<lparr>User = ''jingweno''\<rparr>) True]\<rparr>"
proof -
  let ?args = "invocation ''remote'' [''add'', ''JingWeno/hub'']"
  have "\<not> IsParamsEmpty ?args" "FirstParam ?args = ''add'' \<or> FirstParam ?args = ''set-url''"
    "parseRepoNameOwner sampleContext (LastParam ?args) = (''JingWeno'', ''hub'')" "''JingWeno'' \<noteq> []"
    "remote sampleContext ?args
       = Inr (invocation ''remote'' [''add'', ''JingWeno'', ''git@github.com:jingweno/hub.git''])"
    "DefaultHost sampleContext = Inr \<lparr>User = ''jingweno''\<rparr>"
    "ToLower sampleContext ''JingWeno'' = ToLower sampleContext (User \<lparr>User = ''jingweno''\<rparr>)"
    by (simp_all add: sample_remote_runs)
       (simp_all add: IsParamsEmpty_def FirstParam_def LastParam_def parseRepoNameOwner_def sample_defs)
  from remote_owner_casing [OF this] show ?thesis .
qed

section \<open>Regular expressions and paths: lemmas\<close>

lemma stripPrefix_Some: "stripPrefix p s = Some r \<longleftrightarrow> s = p @ r"
  by (induction p s rule: stripPrefix.induct) auto

lemma stripPrefix_append [simp]: "stripPrefix p (p @ r) = Some r"
  by (simp add: stripPrefix_Some)

lemma urlRegexp_main:
  "scheme = ''http://'' \<or> scheme = ''https://'' \<Longrightarrow>
     urlRegexp (scheme @ ''github.com/'' @ rest) = Some []"
  by (auto simp: urlRegexp_def)

lemma urlRegexp_gist:
  "scheme = ''http://'' \<or> scheme = ''https://'' \<Longrightarrow>
     urlRegexp (scheme @ ''gist.github.com/'' @ rest) = Some ''gist.''"
  by (auto simp: urlRegexp_def)

lemma urlRegexp_scheme:
  "urlRegexp s \<noteq> None \<Longrightarrow> \<exists>r. s = ''http://'' @ r \<or> s = ''https://'' @ r"
  by (auto simp: urlRegexp_def stripPrefix_Some split: option.splits)

lemma stripFragment_id: "CHR ''#'' \<notin> set s \<Longrightarrow> stripFragment s = s"
  by (induction s) auto

lemma not_isDigit_slash: "\<not> isDigit CHR ''/''" "\<not> isWord CHR ''/''"
  "\<not> isDigit CHR ''.''" "\<not> isWord CHR ''.''" "\<not> isDigit CHR ''#''" "\<not> isWord CHR ''#''"
  by (simp_all add: isDigit_def isWord_def)

lemma digits_no_sep:
  "list_all isDigit ds \<Longrightarrow> CHR ''/'' \<notin> set ds \<and> CHR ''.'' \<notin> set ds \<and> CHR ''#'' \<notin> set ds"
  by (induction ds) (auto simp: not_isDigit_slash)

lemma words_no_sep:
  "list_all isWord w \<Longrightarrow> CHR ''/'' \<notin> set w \<and> CHR ''.'' \<notin> set w \<and> CHR ''#'' \<notin> set w"
  by (induction w) (auto simp: not_isDigit_slash)

lemma takeWhile_digits:
  "list_all isDigit ds \<Longrightarrow> takeWhile isDigit (ds @ CHR ''/'' # w) = ds"
  "list_all isDigit ds \<Longrightarrow> dropWhile isDigit (ds @ CHR ''/'' # w) = CHR ''/'' # w"
  by (induction ds) (auto simp: not_isDigit_slash)

lemma pullAt_match:
  "ds \<noteq> [] \<Longrightarrow> list_all isDigit ds \<Longrightarrow> list_all isWord w \<Longrightarrow>
     pullAt (''/pull/'' @ ds @ ''/'' @ w) = Some (''/pull/'' @ ds)"
proof -
  assume a: "ds \<noteq> []" "list_all isDigit ds" "list_all isWord w"
  have "stripPrefix ''/pull/'' (''/pull/'' @ ds @ ''/'' @ w) = Some (ds @ CHR ''/'' # w)"
    by (simp add: stripPrefix_Some)
  with a show ?thesis
    unfolding pullAt_def by (simp add: takeWhile_digits)
qed

lemma slashes_simps [simp]:
  "slashes [] = 0" "slashes (c # s) = (if c = CHR ''/'' then Suc (slashes s) else slashes s)"
  "slashes (a @ b) = slashes a + slashes b"
  by (simp_all add: slashes_def)

lemma slashes_0: "CHR ''/'' \<notin> set s \<Longrightarrow> slashes s = 0"
  by (induction s) auto

lemma pullAt_slashes:
  assumes "pullAt s = Some g" shows "slashes s = 3 \<and> (\<exists>r. s = CHR ''/'' # r)"
proof -
  from assms obtain r where r: "s = ''/pull/'' @ r"
    by (auto simp: pullAt_def stripPrefix_Some split: option.splits)
  with assms obtain w where d: "dropWhile isDigit r = CHR ''/'' # w" and w: "list_all isWord w"
    by (auto simp: pullAt_def Let_def split: list.splits if_splits)
  have "r = takeWhile isDigit r @ dropWhile isDigit r" by simp
  with d have r': "r = takeWhile isDigit r @ CHR ''/'' # w" by simp
  have "list_all isDigit (takeWhile isDigit r)"
    by (simp add: list_all_iff) (meson set_takeWhileD)
  then have "slashes (takeWhile isDigit r) = 0" by (simp add: digits_no_sep slashes_0)
  moreover from w have "slashes w = 0" by (simp add: words_no_sep slashes_0)
  ultimately have "slashes r = 1" by (subst r') simp
  with r show ?thesis by simp
qed

lemma pullRegexp_last:
  "pullAt tail = Some g \<Longrightarrow> pullRegexp (base @ tail) = Some (base, g)"
proof (induction base)
  case Nil
  then show ?case by (cases tail) (auto simp: pullAt_def)
next
  case (Cons c base)
  from Cons.prems have t: "slashes tail = 3" by (simp add: pullAt_slashes)
  have "pullAt (c # base @ tail) = None"
  proof (rule ccontr)
    assume "pullAt (c # base @ tail) \<noteq> None"
    then obtain g' where "pullAt (c # base @ tail) = Some g'" by auto
    from pullAt_slashes [OF this] t show False by (auto split: if_splits)
  qed
  with Cons show ?case by simp
qed

lemma extFrom_eq:
  "extFrom r seen =
     (case dropWhile plainChar r of
        [] \<Rightarrow> []
      | c # _ \<Rightarrow> if c = CHR ''/'' then [] else CHR ''.'' # rev (takeWhile plainChar r) @ seen)"
proof (induction r arbitrary: seen)
  case Nil
  show ?case by simp
next
  case (Cons a r)
  show ?case
  proof (cases "plainChar a")
    case True
    then have step: "extFrom (a # r) seen = extFrom r (a # seen)" by (simp add: plainChar_def)
    from True have e: "dropWhile plainChar (a # r) = dropWhile plainChar r"
      "takeWhile plainChar (a # r) = a # takeWhile plainChar r" by simp_all
    show ?thesis unfolding step e Cons [of "a # seen"]
      by (cases "dropWhile plainChar r") (simp_all del: dropWhile_eq_Nil_conv)
  next
    case False
    then show ?thesis by (auto simp: plainChar_def)
  qed
qed

lemma Ext_none:
  "CHR ''/'' \<notin> set f \<Longrightarrow> CHR ''.'' \<notin> set f \<Longrightarrow> Ext (u @ CHR ''/'' # f) = []"
proof -
  assume a: "CHR ''/'' \<notin> set f" "CHR ''.'' \<notin> set f"
  then have "\<forall>c \<in> set (rev f). plainChar c" by (auto simp: plainChar_def)
  then have "dropWhile plainChar (rev f @ CHR ''/'' # rev u) = CHR ''/'' # rev u"
    by (simp add: dropWhile_append3 plainChar_def dropWhile_append)
  then show ?thesis
    by (simp add: Ext_def extFrom_eq)
qed

lemma Ext_suffix:
  assumes "\<forall>c \<in> set x. plainChar c"
  shows "Ext s = CHR ''.'' # x \<longleftrightarrow> suffix (CHR ''.'' # x) s"
proof
  assume e: "Ext s = CHR ''.'' # x"
  then obtain c rest where d0: "dropWhile plainChar (rev s) = c # rest" and c: "c \<noteq> CHR ''/''"
    and t: "rev (takeWhile plainChar (rev s)) = x"
    by (auto simp: Ext_def extFrom_eq split: list.splits if_splits)
  from d0 hd_dropWhile [of plainChar "rev s"] have "\<not> plainChar c" by simp
  with c d0 have d: "dropWhile plainChar (rev s) = CHR ''.'' # rest"
    by (simp add: plainChar_def)
  have "rev s = takeWhile plainChar (rev s) @ dropWhile plainChar (rev s)" by simp
  with d t have "rev s = rev x @ CHR ''.'' # rest" by auto
  then have "rev (rev s) = rev (rev x @ CHR ''.'' # rest)" by (rule arg_cong)
  then have "s = rev rest @ CHR ''.'' # x" by simp
  then show "suffix (CHR ''.'' # x) s" by (simp add: suffix_def)
next
  assume "suffix (CHR ''.'' # x) s"
  then obtain y where s: "s = y @ CHR ''.'' # x" by (auto simp: suffix_def)
  from assms have px: "\<forall>c \<in> set (rev x). plainChar c" by simp
  have r: "rev s = rev x @ CHR ''.'' # rev y" by (simp add: s)
  have "dropWhile plainChar (rev s) = CHR ''.'' # rev y"
    unfolding r using px by (simp add: dropWhile_append plainChar_def)
  moreover have "takeWhile plainChar (rev s) = rev x"
    unfolding r using px by (simp add: takeWhile_append plainChar_def)
  ultimately show "Ext s = CHR ''.'' # x"
    by (simp add: Ext_def extFrom_eq)
qed

lemma Ext_txt: "Ext s = ''.txt'' \<longleftrightarrow> suffix ''.txt'' s"
  by (rule Ext_suffix) (simp add: plainChar_def)

lemma Ext_patch: "Ext s = ''.patch'' \<longleftrightarrow> suffix ''.patch'' s"
  by (rule Ext_suffix) (simp add: plainChar_def)

lemma Base_suffix:
  assumes "e \<noteq> []" and "CHR ''/'' \<notin> set e"
  shows "Base (y @ e) = rev (takeWhile (\<lambda>c. c \<noteq> CHR ''/'') (rev y)) @ e"
proof -
  from assms have h: "hd (rev e) \<noteq> CHR ''/''" "rev e \<noteq> []"
    by (auto simp: hd_rev) (metis last_in_set)
  then have d: "dropWhile (\<lambda>c. c = CHR ''/'') (rev e @ rev y) = rev e @ rev y"
    by (cases "rev e") auto
  from assms(2) have "\<forall>c \<in> set (rev e). c \<noteq> CHR ''/''" by auto
  then have t: "takeWhile (\<lambda>c. c \<noteq> CHR ''/'') (rev e @ rev y)
      = rev e @ takeWhile (\<lambda>c. c \<noteq> CHR ''/'') (rev y)"
    by (simp add: takeWhile_append)
  from assms(1) show ?thesis
    by (simp add: Base_def d t Let_def)
qed

lemma Base_last_elem:
  "f \<noteq> [] \<Longrightarrow> CHR ''/'' \<notin> set f \<Longrightarrow> Base (u @ CHR ''/'' # f) = f"
  using Base_suffix [of f "u @ ''/''"] by simp

lemma Base_plain: "f \<noteq> [] \<Longrightarrow> CHR ''/'' \<notin> set f \<Longrightarrow> Base f = f"
proof -
  assume a: "f \<noteq> []" "CHR ''/'' \<notin> set f"
  from Base_suffix [OF a, of "[]"] show ?thesis by simp
qed

lemma Base_no_slash: "CHR ''/'' \<notin> set (Base (y @ e))" if "e \<noteq> []" "CHR ''/'' \<notin> set e"
proof -
  have "CHR ''/'' \<notin> set (takeWhile (\<lambda>c. c \<noteq> CHR ''/'') (rev y))"
    by (auto dest: set_takeWhileD)
  with that show ?thesis by (simp add: Base_suffix)
qed

lemma splitSep_nonempty: "splitSep s \<noteq> []"
  by (induction s) (auto split: list.splits)

lemma splitSep_no_sep: "e \<in> set (splitSep s) \<Longrightarrow> CHR ''/'' \<notin> set e"
  by (induction s arbitrary: e) (auto split: list.splits if_splits)

lemma splitSep_plain: "CHR ''/'' \<notin> set f \<Longrightarrow> splitSep f = [f]"
  by (induction f) auto

lemma splitSep_append: "splitSep (a @ CHR ''/'' # b) = splitSep a @ splitSep b"
proof (induction a)
  case Nil
  show ?case by simp
next
  case (Cons c a)
  obtain x xs where "splitSep a = x # xs"
    using splitSep_nonempty [of a] by (cases "splitSep a") auto
  with Cons show ?case by simp
qed

lemma cleanStep_elems:
  assumes "\<forall>e \<in> set out. e \<noteq> [] \<and> CHR ''/'' \<notin> set e" and "CHR ''/'' \<notin> set elem"
  shows "\<forall>e \<in> set (cleanStep rooted out elem). e \<noteq> [] \<and> CHR ''/'' \<notin> set e"
proof -
  have "set (tl out) \<subseteq> set out" by (cases out) auto
  with assms show ?thesis
    by (auto simp: cleanStep_def)
qed

lemma foldl_cleanStep_elems:
  "\<forall>e \<in> set out. e \<noteq> [] \<and> CHR ''/'' \<notin> set e \<Longrightarrow> \<forall>c \<in> set comps. CHR ''/'' \<notin> set c \<Longrightarrow>
     \<forall>e \<in> set (foldl (cleanStep rooted) out comps). e \<noteq> [] \<and> CHR ''/'' \<notin> set e"
proof (induction comps arbitrary: out)
  case Nil
  then show ?case by simp
next
  case (Cons c comps)
  from Cons.prems(2) have c: "CHR ''/'' \<notin> set c"
    and rest: "\<forall>c \<in> set comps. CHR ''/'' \<notin> set c" by simp_all
  from Cons.prems(1) c
  have step: "\<forall>e \<in> set (cleanStep rooted out c). e \<noteq> [] \<and> CHR ''/'' \<notin> set e"
    by (rule cleanStep_elems)
  have "foldl (cleanStep rooted) out (c # comps) = foldl (cleanStep rooted) (cleanStep rooted out c) comps"
    by simp
  with Cons.IH [OF step rest] show ?case by (simp only:)
qed

lemma adjacentSeps_elem:
  "CHR ''/'' \<notin> set x \<Longrightarrow> adjacentSeps (x @ CHR ''/'' # j # js) = (j = CHR ''/'' \<or> adjacentSeps (j # js))"
proof (induction x)
  case Nil
  show ?case by simp
next
  case (Cons c x)
  then show ?case by (cases x) auto
qed

lemma adjacentSeps_plain: "CHR ''/'' \<notin> set x \<Longrightarrow> \<not> adjacentSeps x"
  by (induction x rule: adjacentSeps.induct) auto

lemma joinSep_elems:
  "\<forall>e \<in> set ys. e \<noteq> [] \<and> CHR ''/'' \<notin> set e \<Longrightarrow>
     \<not> adjacentSeps (joinSep ys) \<and> (ys \<noteq> [] \<longrightarrow> joinSep ys \<noteq> [] \<and> hd (joinSep ys) \<noteq> CHR ''/'')"
proof (induction ys rule: joinSep.induct)
  case 1
  show ?case by simp
next
  case (2 x)
  then show ?case by (cases x) (auto simp: adjacentSeps_plain)
next
  case (3 x y ys)
  then have ih: "\<not> adjacentSeps (joinSep (y # ys))" "joinSep (y # ys) \<noteq> []"
    "hd (joinSep (y # ys)) \<noteq> CHR ''/''" by simp_all
  then obtain j js where j: "joinSep (y # ys) = j # js" "j \<noteq> CHR ''/''"
    by (cases "joinSep (y # ys)") auto
  from 3(2) have x: "x \<noteq> []" "CHR ''/'' \<notin> set x" by simp_all
  from x(2) ih(1) j have "\<not> adjacentSeps (x @ CHR ''/'' # joinSep (y # ys))"
    by (simp add: adjacentSeps_elem)
  moreover from x have "hd (x @ CHR ''/'' # joinSep (y # ys)) \<noteq> CHR ''/''"
    by (cases x) auto
  ultimately show ?case by simp
qed

lemma url_adjacentSeps: "urlRegexp s \<noteq> None \<Longrightarrow> adjacentSeps s"
proof -
  assume "urlRegexp s \<noteq> None"
  from urlRegexp_scheme [OF this] obtain r where "s = ''http://'' @ r \<or> s = ''https://'' @ r"
    by blast
  then show ?thesis by auto
qed

lemma Clean_elems:
  "\<forall>e \<in> set (foldl (cleanStep rooted) [] (splitSep path)). e \<noteq> [] \<and> CHR ''/'' \<notin> set e"
  by (rule foldl_cleanStep_elems) (auto dest: splitSep_no_sep)

lemma Clean_no_url: "urlRegexp (Clean path) = None"
proof (cases "path = []")
  case True
  then show ?thesis by (simp add: Clean_def urlRegexp_def)
next
  case False
  let ?rooted = "hd path = CHR ''/''"
  let ?out = "foldl (cleanStep ?rooted) [] (splitSep path)"
  let ?j = "joinSep (rev ?out)"
  have j: "\<not> adjacentSeps ?j"
    using joinSep_elems [of "rev ?out"] Clean_elems [of ?rooted path] by simp
  show ?thesis
  proof (cases ?rooted)
    case True
    with False have "Clean path = CHR ''/'' # ?j" by (simp add: Clean_def Let_def)
    then show ?thesis by (simp add: urlRegexp_def)
  next
    case nr: False
    with False have "Clean path = (if ?j = [] then ''.'' else ?j)" by (simp add: Clean_def Let_def)
    moreover have "urlRegexp ''.'' = None" by (simp add: urlRegexp_def)
    moreover from j url_adjacentSeps [of ?j] have "urlRegexp ?j = None" by blast
    ultimately show ?thesis by simp
  qed
qed

lemma Join_no_url: "urlRegexp (Join es) = None"
proof (induction es)
  case Nil
  show ?case by (simp add: urlRegexp_def)
next
  case (Cons e es)
  then show ?case by (simp add: Clean_no_url)
qed

lemma joinSep_snoc:
  "joinSep (ys @ [f]) = (if ys = [] then f else joinSep ys @ CHR ''/'' # f)"
  by (induction ys rule: joinSep.induct) auto

lemma Clean_last_elem:
  assumes "f \<noteq> []" and "CHR ''/'' \<notin> set f" and "f \<noteq> ''.''" and "f \<noteq> ''..''"
  shows "Base (Clean (d @ CHR ''/'' # f)) = f"
proof -
  let ?path = "d @ CHR ''/'' # f"
  let ?rooted = "hd ?path = CHR ''/''"
  let ?out0 = "foldl (cleanStep ?rooted) [] (splitSep d)"
  have "splitSep ?path = splitSep d @ [f]"
    using assms(2) by (simp add: splitSep_append splitSep_plain)
  then have out: "foldl (cleanStep ?rooted) [] (splitSep ?path) = f # ?out0"
    using assms by (simp add: cleanStep_def)
  let ?root = "if ?rooted then ''/'' else []"
  have c: "Clean ?path = ?root @ joinSep (rev ?out0 @ [f])"
    using assms(1) by (simp add: Clean_def Let_def out joinSep_snoc del: joinSep.simps foldl_append)
  show ?thesis
  proof (cases "?out0 = []")
    case True
    with c have "Clean ?path = ?root @ f" by simp
    with assms(1,2) Base_plain [of f] Base_last_elem [of f "[]"] show ?thesis
      by (auto split: if_splits)
  next
    case False
    with c have "Clean ?path = (?root @ joinSep (rev ?out0)) @ CHR ''/'' # f"
      by (simp add: joinSep_snoc)
    with assms(1,2) Base_last_elem [of f "?root @ joinSep (rev ?out0)"] show ?thesis
      by simp
  qed
qed

lemma Clean_plain:
  assumes "f \<noteq> []" and "CHR ''/'' \<notin> set f" and "f \<noteq> ''.''" and "f \<noteq> ''..''"
  shows "Clean f = f"
proof -
  from assms(1,2) have "hd f \<noteq> CHR ''/''" by (cases f) auto
  with assms show ?thesis
    by (simp add: Clean_def Let_def splitSep_plain cleanStep_def)
qed

lemma Base_Join:
  assumes "f \<noteq> []" and "CHR ''/'' \<notin> set f" and "f \<noteq> ''.''" and "f \<noteq> ''..''"
  shows "Base (Join [d, f]) = f"
  using assms Clean_last_elem [OF assms, of d] Clean_plain [OF assms] Base_plain [of f]
  by simp

section \<open>The apply rule: properties\<close>

lemma apply_first_url:
  assumes "Params args = pre @ u # post" and "\<forall>p \<in> set pre. urlRegexp p = None"
    and "urlRegexp u \<noteq> None"
  shows "apply_cmd ctx args
           = Inr (args\<lparr>beforeChain := beforeChain args
                     @ [[''curl'', ''-#LA'', ''gh '' @ Version ctx, fst (patchTarget ctx u), ''-o'',
                         snd (patchTarget ctx u)]],
                   Params := pre @ snd (patchTarget ctx u) # post\<rparr>)"
proof -
  have loop: "applyLoop ctx (pre @ u # post) args = applyLoop ctx (u # post) args"
    using assms(2) by (induction pre) simp_all
  from assms(2,3) have "u \<notin> set pre" by auto
  then have idx: "IndexOfParam args u = int (length pre)"
    by (simp add: IndexOfParam_def assms(1) indexOf_first)
  have "applyLoop ctx (u # post) args
           = Inr (args\<lparr>beforeChain := beforeChain args
                     @ [[''curl'', ''-#LA'', ''gh '' @ Version ctx, fst (patchTarget ctx u), ''-o'',
                         snd (patchTarget ctx u)]],
                   Params := pre @ snd (patchTarget ctx u) # post\<rparr>)"
    using assms(3)
    by (simp add: idx Before_def ParamsSize_def assms(1) Let_def split: prod.splits)
  with loop show ?thesis
    by (simp add: apply_cmd_def transformApplyArgs_def IsParamsEmpty_def assms(1))
qed

lemma Base_ext:
  assumes "suffix e s" and "e \<noteq> []" and "CHR ''/'' \<notin> set e"
  shows "suffix e (Base s)" and "CHR ''/'' \<notin> set (Base s)"
proof -
  from assms(1) obtain y where s: "s = y @ e" by (auto simp: suffix_def)
  show "suffix e (Base s)" unfolding s by (simp add: Base_suffix assms(2,3) suffix_def)
  show "CHR ''/'' \<notin> set (Base s)" unfolding s using assms(2,3) by (rule Base_no_slash)
qed

lemma patchTarget_file:
  "snd (patchTarget ctx u)
     = Join [TempDir ctx, (if urlRegexp u = Some ''gist.'' then ''gist-'' else [])
                            @ Base (fst (patchTarget ctx u))]"
  by (simp add: patchTarget_def Let_def)

lemma patchTarget_gist:
  assumes "urlRegexp u = Some ''gist.''"
  shows "fst (patchTarget ctx u)
           = (if suffix ''.txt'' (stripFragment u) then stripFragment u
              else stripFragment u @ ''.txt'')"
  using assms by (simp add: patchTarget_def Let_def Ext_txt)

lemma patchTarget_main:
  assumes "urlRegexp u = Some []"
    and "url2 = (case pullRegexp (stripFragment u) of
                   Some (front, pull) \<Rightarrow> front @ pull
                 | None \<Rightarrow> stripFragment u)"
  shows "fst (patchTarget ctx u) = (if suffix ''.patch'' url2 then url2 else url2 @ ''.patch'')"
  using assms by (simp add: patchTarget_def Let_def Ext_patch)

lemma apply_second_run:
  assumes "apply_cmd ctx args = Inr args'"
    and "length (filter (\<lambda>p. urlRegexp p \<noteq> None) (Params args)) \<le> 1"
  shows "apply_cmd ctx args' = Inr args'"
proof (cases "filter (\<lambda>p. urlRegexp p \<noteq> None) (Params args)")
  case Nil
  then have none: "\<forall>p \<in> set (Params args). urlRegexp p = None"
    by (simp add: filter_empty_conv)
  then have "apply_cmd ctx args = Inr args"
    by (simp add: apply_cmd_def transformApplyArgs_def applyLoop_no_match)
  with assms(1) have "args' = args" by simp
  with none show ?thesis
    by (simp add: apply_cmd_def transformApplyArgs_def applyLoop_no_match)
next
  case (Cons u us)
  with assms(2) have one: "filter (\<lambda>p. urlRegexp p \<noteq> None) (Params args) = [u]" by simp
  from filter_eq_ConsD [OF one] obtain pre post where
    ps: "Params args = pre @ u # post" and pre: "\<forall>p \<in> set pre. urlRegexp p = None"
    and u: "urlRegexp u \<noteq> None" and post: "filter (\<lambda>p. urlRegexp p \<noteq> None) post = []"
    by auto
  from post have post': "\<forall>p \<in> set post. urlRegexp p = None"
    by (simp add: filter_empty_conv)
  from apply_first_url [OF ps pre u, of ctx] assms(1)
  have "Params args' = pre @ snd (patchTarget ctx u) # post" by auto
  moreover have "urlRegexp (snd (patchTarget ctx u)) = None"
    by (simp add: patchTarget_file Join_no_url del: Join.simps)
  ultimately have "\<forall>p \<in> set (Params args'). urlRegexp p = None"
    using pre post' by auto
  then show ?thesis
    by (simp add: apply_cmd_def transformApplyArgs_def applyLoop_no_match)
qed

lemma appendRemoteURL_last:
  "LastParam (appendRemoteURL ctx hc host isPrivate owner name args)
     = GitURL ctx
         (NewProject ctx (if ToLower ctx owner = ToLower ctx (User hc) then User hc else owner) name host)
         name (if ToLower ctx owner = ToLower ctx (User hc) then User hc else owner)
         ((if ToLower ctx owner = ToLower ctx (User hc) then True else isPrivate)
          \<or> Host (NewProject ctx (if ToLower ctx owner = ToLower ctx (User hc) then User hc else owner)
                    name host) \<noteq> GitHubHost ctx)"
  by (simp add: appendRemoteURL_def AppendParams_def LastParam_def Let_def)

lemma remote_second_run:
  assumes "\<forall>project name owner isPrivate.
             \<not> ownerRegexp ctx (GitURL ctx project name owner isPrivate)
             \<and> nameWithOwnerRegexp ctx (GitURL ctx project name owner isPrivate) = None"
    and "remote ctx args = Inr args'"
  shows "remote ctx args' = Inr args'"
proof (cases "\<not> IsParamsEmpty args \<and> (FirstParam args = ''add'' \<or> FirstParam args = ''set-url'')
              \<and> fst (parseRepoNameOwner ctx (LastParam args)) \<noteq> []")
  case False
  then have "remote ctx args = Inr args"
    by (auto simp: remote_def transformRemoteArgs_def split: prod.splits)
  with assms(2) show ?thesis by simp
next
  case True
  then have t: "transformRemoteArgs ctx args = Inr args'"
    using assms(2) by (simp add: remote_def)
  obtain owner name where p: "parseRepoNameOwner ctx (LastParam args) = (owner, name)"
    by (cases "parseRepoNameOwner ctx (LastParam args)")
  with True have "owner \<noteq> []" by simp
  from transformRemoteArgs_Inr [OF t p this] obtain hc host isPrivate owner1 name2 args1 where
    "args' = appendRemoteURL ctx hc host isPrivate owner1 name2 args1" by blast
  then obtain project n ow b where "LastParam args' = GitURL ctx project n ow b"
    using appendRemoteURL_last by blast
  with assms(1) have "parseRepoNameOwner ctx (LastParam args') = ([], [])"
    by (simp add: parse_no_match)
  then show ?thesis
    by (simp add: remote_def transformRemoteArgs_def)
qed

lemmas apply_defs =
  apply_cmd_def transformApplyArgs_def patchTarget_def urlRegexp_def pullAt_def
  Ext_def Base_def Clean_def cleanStep_def isDigit_def
  IsParamsEmpty_def IndexOfParam_def ParamsSize_def Before_def Let_def

lemma sample_apply_runs:
  "apply_cmd sampleContext (invocation ''apply''
       [''https://github.com/jingweno/gh/pull/55/files'', ''https://gist.github.com/8da7fb'']) =
     Inr \<lparr>Command = ''apply'',
          Params = [''/tmp/55.patch'', ''https://gist.github.com/8da7fb''],
          beforeChain = [[''curl'', ''-#LA'', ''gh 1.0'',
                          ''https://github.com/jingweno/gh/pull/55.patch'', ''-o'', ''/tmp/55.patch'']],
          Noop = False\<rparr>"
  "apply_cmd sampleContext
       \<lparr>Command = ''apply'',
        Params = [''/tmp/55.patch'', ''https://gist.github.com/8da7fb''],
        beforeChain = [[''curl'', ''-#LA'', ''gh 1.0'',
                        ''https://github.com/jingweno/gh/pull/55.patch'', ''-o'', ''/tmp/55.patch'']],
        Noop = False\<rparr> =
     Inr \<lparr>Command = ''apply'',
          Params = [''/tmp/55.patch'', ''/tmp/gist-8da7fb.txt''],
          beforeChain = [[''curl'', ''-#LA'', ''gh 1.0'',
                          ''https://github.com/jingweno/gh/pull/55.patch'', ''-o'', ''/tmp/55.patch''],
                         [''curl'', ''-#LA'', ''gh 1.0'',
                          ''https://gist.github.com/8da7fb.txt'', ''-o'', ''/tmp/gist-8da7fb.txt'']],
          Noop = False\<rparr>"
  by (simp_all add: apply_defs sample_defs)

lemma sample_apply_single:
  "apply_cmd sampleContext (invocation ''apply'' [''--check'', ''https://github.com/jingweno/gh/pull/55'']) =
     Inr \<lparr>Command = ''apply'',
          Params = [''--check'', ''/tmp/55.patch''],
          beforeChain = [[''curl'', ''-#LA'', ''gh 1.0'',
                          ''https://github.com/jingweno/gh/pull/55.patch'', ''-o'', ''/tmp/55.patch'']],
          Noop = False\<rparr>"
  by (simp add: apply_defs sample_defs)

lemma remote_url_unparsed:
  "\<not> OwnerRe (projectGitURL project name owner isPrivate)"
  "nameWithOwnerRe (projectGitURL project name owner isPrivate) = None"
  by (simp_all add: OwnerRe_def NameRe_def nameWithOwnerRe_def projectGitURL_def isWord_def Let_def
      split: list.splits)

lemma remote_second_run_modelled:
  assumes "ctx' = ctx\<lparr>ownerRegexp := OwnerRe, nameWithOwnerRegexp := nameWithOwnerRe,
                       GitURL := projectGitURL\<rparr>"
    and "remote ctx' args = Inr args'"
  shows "remote ctx' args' = Inr args'"
proof (rule remote_second_run [OF _ assms(2)])
  show "\<forall>project name owner isPrivate.
          \<not> ownerRegexp ctx' (GitURL ctx' project name owner isPrivate)
          \<and> nameWithOwnerRegexp ctx' (GitURL ctx' project name owner isPrivate) = None"
    by (simp add: assms(1) remote_url_unparsed)
qed

lemma sample_apply_gist_first:
  "apply_cmd sampleContext (invocation ''apply''
       [''https://gist.github.com/8da7fb'', ''https://github.com/jingweno/gh/pull/55/files'']) =
     Inr \<lparr>Command = ''apply'',
          Params = [''/tmp/gist-8da7fb.txt'', ''https://github.com/jingweno/gh/pull/55/files''],
          beforeChain = [[''curl'', ''-#LA'', ''gh 1.0'',
                          ''https://gist.github.com/8da7fb.txt'', ''-o'', ''/tmp/gist-8da7fb.txt'']],
          Noop = False\<rparr>"
  by (simp add: apply_defs sample_defs)

subsection \<open>A pull-request page\<close>

text \<open>
  C4, as amended: in an \<^verbatim>\<open>apply\<close> invocation whose first parameter matching the URL pattern
  is a pull-request URL of the main host followed by \<^verbatim>\<open>/files\<close>, \<^verbatim>\<open>/commits\<close> or any other page
  made of word characters, exactly one prerequisite is enqueued: \<^verbatim>\<open>curl\<close> fetching the
  URL cut back to \<^verbatim>\<open>/pull/N\<close> with \<^verbatim>\<open>.patch\<close> appended, writing to the path joined from
  the temporary directory and \<^verbatim>\<open>N.patch\<close>. That parameter is replaced in place by the
  path; every other parameter is unchanged, also a later one that matches the pattern.
\<close>

theorem apply_pull_request_page:
  assumes "Params args = pre @ u # post" and "\<forall>p \<in> set pre. urlRegexp p = None"
    and "scheme = ''http://'' \<or> scheme = ''https://''"
    and "u = scheme @ ''github.com/'' @ path @ ''/pull/'' @ N @ ''/'' @ page"
    and "CHR ''#'' \<notin> set path" and "N \<noteq> []" and "list_all isDigit N" and "list_all isWord page"
    and "patchFile = Join [TempDir ctx, N @ ''.patch'']"
  shows "apply_cmd ctx args
           = Inr (args\<lparr>beforeChain := beforeChain args
                     @ [[''curl'', ''-#LA'', ''gh '' @ Version ctx,
                         scheme @ ''github.com/'' @ path @ ''/pull/'' @ N @ ''.patch'', ''-o'',
                         patchFile]],
                   Params := pre @ patchFile # post\<rparr>)"
proof -
  let ?base = "scheme @ ''github.com/'' @ path"
  have u: "u = ?base @ (''/pull/'' @ N @ ''/'' @ page)" by (simp add: assms(4))
  from assms(3) have m: "urlRegexp u = Some []"
    unfolding assms(4) by (rule urlRegexp_main)
  from assms(3,5,7,8) have "CHR ''#'' \<notin> set u"
    by (auto simp: assms(4) dest: digits_no_sep words_no_sep)
  then have f: "stripFragment u = u" by (rule stripFragment_id)
  have "pullAt (''/pull/'' @ N @ ''/'' @ page) = Some (''/pull/'' @ N)"
    using assms(6,7,8) by (rule pullAt_match)
  then have p: "pullRegexp u = Some (?base, ''/pull/'' @ N)"
    unfolding u by (rule pullRegexp_last)
  from assms(7) have n: "CHR ''/'' \<notin> set N" "CHR ''.'' \<notin> set N"
    by (simp_all add: digits_no_sep)
  have e: "Ext (?base @ ''/pull/'' @ N) = []"
    using Ext_none [OF n, of "?base @ ''/pull''"] by simp
  have b: "Base (?base @ ''/pull/'' @ N @ ''.patch'') = N @ ''.patch''"
    using Base_last_elem [of "N @ ''.patch''" "?base @ ''/pull''"] n by simp
  have "patchTarget ctx u = (?base @ ''/pull/'' @ N @ ''.patch'', patchFile)"
    using e b by (simp add: patchTarget_def m f p assms(9))
  with apply_first_url [OF assms(1,2), of ctx] m show ?thesis by simp
qed

theorem apply_pull_request_page_witness:
  "apply_cmd sampleContext (invocation ''apply''
       [''--check'', ''https://github.com/jingweno/gh/pull/55/files'',
        ''http://github.com/jingweno/gh/pull/7/commits'']) =
     Inr ((invocation ''apply''
       [''--check'', ''https://github.com/jingweno/gh/pull/55/files'',
        ''http://github.com/jingweno/gh/pull/7/commits''])
       \<lparr>beforeChain := [[''curl'', ''-#LA'', ''gh 1.0'',
                          ''https://github.com/jingweno/gh/pull/55.patch'', ''-o'',
                          Join [''/tmp'', ''55.patch'']]],
        Params := [''--check'', Join [''/tmp'', ''55.patch''],
                   ''http://github.com/jingweno/gh/pull/7/commits'']\<rparr>)"
proof -
  let ?args = "invocation ''apply''
       [''--check'', ''https://github.com/jingweno/gh/pull/55/files'',
        ''http://github.com/jingweno/gh/pull/7/commits'']"
  have "Params ?args = [''--check''] @ ''https://github.com/jingweno/gh/pull/55/files''
          # [''http://github.com/jingweno/gh/pull/7/commits'']"
    "\<forall>p \<in> set [''--check'']. urlRegexp p = None"
    "''https://'' = ''http://'' \<or> ''https://'' = ''https://''"
    "''https://github.com/jingweno/gh/pull/55/files''
       = ''https://'' @ ''github.com/'' @ ''jingweno/gh'' @ ''/pull/'' @ ''55'' @ ''/'' @ ''files''"
    "CHR ''#'' \<notin> set ''jingweno/gh''" "''55'' \<noteq> []" "list_all isDigit ''55''"
    "list_all isWord ''files''"
    "Join [TempDir sampleContext, ''55'' @ ''.patch''] = Join [TempDir sampleContext, ''55'' @ ''.patch'']"
    by (simp_all add: invocation_def urlRegexp_def isDigit_def isWord_def)
  from apply_pull_request_page [OF this] show ?thesis
    by (simp add: invocation_def sampleContext_def)
qed

text \<open>
  The claim as stated, for every invocation whose parameters contain such a URL, fails
  when another URL comes first: in \<^verbatim>\<open>apply GIST-URL PULL-URL/files\<close> the gist is fetched
  and the pull-request URL stays as it is, so no fetch of \<^verbatim>\<open>pull/55.patch\<close> is enqueued.
\<close>

theorem apply_pull_request_page_counterexample:
  "apply_cmd sampleContext (invocation ''apply''
       [''https://gist.github.com/8da7fb'', ''https://github.com/jingweno/gh/pull/55/files'']) =
     Inr \<lparr>Command = ''apply'',
          Params = [''/tmp/gist-8da7fb.txt'', ''https://github.com/jingweno/gh/pull/55/files''],
          beforeChain = [[''curl'', ''-#LA'', ''gh 1.0'',
                          ''https://gist.github.com/8da7fb.txt'', ''-o'', ''/tmp/gist-8da7fb.txt'']],
          Noop = False\<rparr>
   \<and> apply_cmd sampleContext (invocation ''apply''
       [''https://gist.github.com/8da7fb'', ''https://github.com/jingweno/gh/pull/55/files'']) \<noteq>
     Inr \<lparr>Command = ''apply'',
          Params = [''https://gist.github.com/8da7fb'', ''/tmp/55.patch''],
          beforeChain = [[''curl'', ''-#LA'', ''gh 1.0'',
                          ''https://github.com/jingweno/gh/pull/55.patch'', ''-o'', ''/tmp/55.patch'']],
          Noop = False\<rparr>"
  by (simp add: sample_apply_gist_first)

subsection \<open>Gists and patches\<close>

text \<open>
  C9: for the first parameter matching the URL pattern, the choice between gist and
  main host is made by the subdomain alone. On \<^verbatim>\<open>gist.github.com\<close> the URL fetched is the
  parameter without its fragment, with \<^verbatim>\<open>.txt\<close> appended unless it already ends with
  \<^verbatim>\<open>.txt\<close>, and the file name is \<^verbatim>\<open>gist-\<close> followed by the last element of that URL, so
  it ends with \<^verbatim>\<open>.txt\<close>. On \<^verbatim>\<open>github.com\<close> the URL fetched ends with \<^verbatim>\<open>.patch\<close> (appended
  unless already there, after the fragment is removed and a pull-request page is cut
  back), and the file name is the last element of that URL with no prefix. In both cases
  the file name is the last element of the path that replaces the parameter.
\<close>

theorem apply_gist_or_patch:
  assumes "Params args = pre @ u # post" and "\<forall>p \<in> set pre. urlRegexp p = None"
    and "scheme = ''http://'' \<or> scheme = ''https://''"
    and "url1 = stripFragment u"
    and "url2 = (case pullRegexp url1 of Some (front, pull) \<Rightarrow> front @ pull | None \<Rightarrow> url1)"
  shows "(u = scheme @ ''gist.github.com/'' @ rest \<longrightarrow>
           (\<exists>url name patchFile.
              apply_cmd ctx args
                = Inr (args\<lparr>beforeChain := beforeChain args
                          @ [[''curl'', ''-#LA'', ''gh '' @ Version ctx, url, ''-o'', patchFile]],
                        Params := pre @ patchFile # post\<rparr>)
              \<and> url = (if suffix ''.txt'' url1 then url1 else url1 @ ''.txt'')
              \<and> name = ''gist-'' @ Base url \<and> suffix ''.txt'' name
              \<and> patchFile = Join [TempDir ctx, name] \<and> Base patchFile = name))
       \<and> (u = scheme @ ''github.com/'' @ rest \<longrightarrow>
           (\<exists>url name patchFile.
              apply_cmd ctx args
                = Inr (args\<lparr>beforeChain := beforeChain args
                          @ [[''curl'', ''-#LA'', ''gh '' @ Version ctx, url, ''-o'', patchFile]],
                        Params := pre @ patchFile # post\<rparr>)
              \<and> url = (if suffix ''.patch'' url2 then url2 else url2 @ ''.patch'')
              \<and> name = Base url \<and> suffix ''.patch'' name
              \<and> patchFile = Join [TempDir ctx, name] \<and> Base patchFile = name))"
proof (intro conjI impI)
  assume u: "u = scheme @ ''gist.github.com/'' @ rest"
  from assms(3) have m: "urlRegexp u = Some ''gist.''" unfolding u by (rule urlRegexp_gist)
  let ?url = "fst (patchTarget ctx u)"
  let ?name = "''gist-'' @ Base ?url"
  have url: "?url = (if suffix ''.txt'' url1 then url1 else url1 @ ''.txt'')"
    unfolding assms(4) using m by (rule patchTarget_gist)
  then have sfx: "suffix ''.txt'' ?url" by (auto simp: suffix_def)
  have b: "suffix ''.txt'' (Base ?url)" "CHR ''/'' \<notin> set (Base ?url)"
    using Base_ext [OF sfx] by simp_all
  from b(1) have n: "suffix ''.txt'' ?name" by (auto simp: suffix_def)
  have pf: "snd (patchTarget ctx u) = Join [TempDir ctx, ?name]"
    using m by (simp add: patchTarget_file)
  have "Base (Join [TempDir ctx, ?name]) = ?name"
    using b(2) by (intro Base_Join) auto
  with apply_first_url [OF assms(1,2), of ctx] m url n pf
  show "\<exists>url name patchFile.
              apply_cmd ctx args
                = Inr (args\<lparr>beforeChain := beforeChain args
                          @ [[''curl'', ''-#LA'', ''gh '' @ Version ctx, url, ''-o'', patchFile]],
                        Params := pre @ patchFile # post\<rparr>)
              \<and> url = (if suffix ''.txt'' url1 then url1 else url1 @ ''.txt'')
              \<and> name = ''gist-'' @ Base url \<and> suffix ''.txt'' name
              \<and> patchFile = Join [TempDir ctx, name] \<and> Base patchFile = name"
    by simp
next
  assume u: "u = scheme @ ''github.com/'' @ rest"
  from assms(3) have m: "urlRegexp u = Some []" unfolding u by (rule urlRegexp_main)
  let ?url = "fst (patchTarget ctx u)"
  let ?name = "Base ?url"
  have u2: "url2 = (case pullRegexp (stripFragment u) of
                      Some (front, pull) \<Rightarrow> front @ pull
                    | None \<Rightarrow> stripFragment u)"
    unfolding assms(5) assms(4) ..
  have url: "?url = (if suffix ''.patch'' url2 then url2 else url2 @ ''.patch'')"
    using m u2 by (rule patchTarget_main)
  then have sfx: "suffix ''.patch'' ?url" by (auto simp: suffix_def)
  have b: "suffix ''.patch'' ?name" "CHR ''/'' \<notin> set ?name"
    using Base_ext [OF sfx] by simp_all
  have pf: "snd (patchTarget ctx u) = Join [TempDir ctx, ?name]"
    using m by (simp add: patchTarget_file)
  from b(1) have "?name \<noteq> []" "?name \<noteq> ''.''" "?name \<noteq> ''..''"
    by (auto simp: suffix_def)
  with b(2) have "Base (Join [TempDir ctx, ?name]) = ?name"
    by (intro Base_Join)
  with apply_first_url [OF assms(1,2), of ctx] m url b(1) pf
  show "\<exists>url name patchFile.
              apply_cmd ctx args
                = Inr (args\<lparr>beforeChain := beforeChain args
                          @ [[''curl'', ''-#LA'', ''gh '' @ Version ctx, url, ''-o'', patchFile]],
                        Params := pre @ patchFile # post\<rparr>)
              \<and> url = (if suffix ''.patch'' url2 then url2 else url2 @ ''.patch'')
              \<and> name = Base url \<and> suffix ''.patch'' name
              \<and> patchFile = Join [TempDir ctx, name] \<and> Base patchFile = name"
    by simp
qed

theorem apply_gist_or_patch_witness:
  "(\<exists>url name patchFile.
      apply_cmd sampleContext (invocation ''apply'' [''https://gist.github.com/8da7fb#file-a'']) =
        Inr ((invocation ''apply'' [''https://gist.github.com/8da7fb#file-a''])
          \<lparr>beforeChain := [[''curl'', ''-#LA'', ''gh 1.0'', url, ''-o'', patchFile]],
           Params := [patchFile]\<rparr>)
      \<and> url = ''https://gist.github.com/8da7fb.txt''
      \<and> name = ''gist-8da7fb.txt''
      \<and> patchFile = Join [''/tmp'', name] \<and> Base patchFile = name)
   \<and> (\<exists>url name patchFile.
      apply_cmd sampleContext (invocation ''apply'' [''http://github.com/jingweno/gh/commit/fdb9921'']) =
        Inr ((invocation ''apply'' [''http://github.com/jingweno/gh/commit/fdb9921''])
          \<lparr>beforeChain := [[''curl'', ''-#LA'', ''gh 1.0'', url, ''-o'', patchFile]],
           Params := [patchFile]\<rparr>)
      \<and> url = ''http://github.com/jingweno/gh/commit/fdb9921.patch''
      \<and> name = ''fdb9921.patch''
      \<and> patchFile = Join [''/tmp'', name] \<and> Base patchFile = name)"
proof -
  let ?g = "''https://gist.github.com/8da7fb#file-a''"
  let ?c = "''http://github.com/jingweno/gh/commit/fdb9921''"
  have bg: "Base ''https://gist.github.com/8da7fb.txt'' = ''8da7fb.txt''"
    and bc: "Base ''http://github.com/jingweno/gh/commit/fdb9921.patch'' = ''fdb9921.patch''"
    by (simp_all add: Base_def)
  have g: "Params (invocation ''apply'' [?g]) = [] @ ?g # []"
    "\<forall>p \<in> set []. urlRegexp p = None"
    "''https://'' = ''http://'' \<or> ''https://'' = ''https://''"
    "''https://gist.github.com/8da7fb'' = stripFragment ?g"
    "''https://gist.github.com/8da7fb''
       = (case pullRegexp ''https://gist.github.com/8da7fb'' of
            Some (front, pull) \<Rightarrow> front @ pull
          | None \<Rightarrow> ''https://gist.github.com/8da7fb'')"
    by (simp_all add: invocation_def pullAt_def)
  have c: "Params (invocation ''apply'' [?c]) = [] @ ?c # []"
    "\<forall>p \<in> set []. urlRegexp p = None"
    "''http://'' = ''http://'' \<or> ''http://'' = ''https://''"
    "?c = stripFragment ?c"
    "?c = (case pullRegexp ?c of Some (front, pull) \<Rightarrow> front @ pull | None \<Rightarrow> ?c)"
    by (simp_all add: invocation_def pullAt_def)
  have first: "\<exists>url name patchFile.
      apply_cmd sampleContext (invocation ''apply'' [?g]) =
        Inr ((invocation ''apply'' [?g])
          \<lparr>beforeChain := [[''curl'', ''-#LA'', ''gh 1.0'', url, ''-o'', patchFile]],
           Params := [patchFile]\<rparr>)
      \<and> url = ''https://gist.github.com/8da7fb.txt''
      \<and> name = ''gist-8da7fb.txt''
      \<and> patchFile = Join [''/tmp'', name] \<and> Base patchFile = name"
    using apply_gist_or_patch [OF g, of "''8da7fb#file-a''" sampleContext]
    by (simp add: bg suffix_to_prefix invocation_def sampleContext_def del: Join.simps)
  have second: "\<exists>url name patchFile.
      apply_cmd sampleContext (invocation ''apply'' [?c]) =
        Inr ((invocation ''apply'' [?c])
          \<lparr>beforeChain := [[''curl'', ''-#LA'', ''gh 1.0'', url, ''-o'', patchFile]],
           Params := [patchFile]\<rparr>)
      \<and> url = ''http://github.com/jingweno/gh/commit/fdb9921.patch''
      \<and> name = ''fdb9921.patch''
      \<and> patchFile = Join [''/tmp'', name] \<and> Base patchFile = name"
    using apply_gist_or_patch [OF c, of "''jingweno/gh/commit/fdb9921''" sampleContext]
    by (simp add: bc suffix_to_prefix invocation_def sampleContext_def del: Join.simps)
  from first second show ?thesis by (rule conjI)
qed

subsection \<open>A second run\<close>

text \<open>
  C7, as amended: a second run on an argument list that a rule has rewritten changes
  nothing and enqueues nothing. For \<^verbatim>\<open>apply\<close> this holds when at most one parameter of
  the first invocation matched the URL pattern: the path written in its place never
  matches the pattern (a cleaned path has no two separators in a row). For \<^verbatim>\<open>remote\<close>,
  with the two grammars and the URL builder as modelled from the specification, a URL
  that the builder returns matches neither the bare-owner nor the owner/name grammar, so
  the second run finds no owner in the trailing parameter.
\<close>

theorem second_run_unchanged:
  "(apply_cmd ctx args = Inr args'
      \<and> length (filter (\<lambda>p. urlRegexp p \<noteq> None) (Params args)) \<le> 1
     \<longrightarrow> apply_cmd ctx args' = Inr args')
   \<and> urlRegexp (snd (patchTarget ctx u)) = None
   \<and> \<not> OwnerRe (projectGitURL project name owner isPrivate)
   \<and> nameWithOwnerRe (projectGitURL project name owner isPrivate) = None
   \<and> (remote (ctx\<lparr>ownerRegexp := OwnerRe, nameWithOwnerRegexp := nameWithOwnerRe,
                    GitURL := projectGitURL\<rparr>) rargs = Inr rargs'
     \<longrightarrow> remote (ctx\<lparr>ownerRegexp := OwnerRe, nameWithOwnerRegexp := nameWithOwnerRe,
                      GitURL := projectGitURL\<rparr>) rargs' = Inr rargs')"
proof (intro conjI impI)
  assume "apply_cmd ctx args = Inr args'
      \<and> length (filter (\<lambda>p. urlRegexp p \<noteq> None) (Params args)) \<le> 1"
  then show "apply_cmd ctx args' = Inr args'"
    using apply_second_run [of ctx args args'] by simp
next
  show "urlRegexp (snd (patchTarget ctx u)) = None"
    by (simp add: patchTarget_file Join_no_url del: Join.simps)
next
  show "\<not> OwnerRe (projectGitURL project name owner isPrivate)"
    by (rule remote_url_unparsed)
next
  show "nameWithOwnerRe (projectGitURL project name owner isPrivate) = None"
    by (rule remote_url_unparsed)
next
  assume "remote (ctx\<lparr>ownerRegexp := OwnerRe, nameWithOwnerRegexp := nameWithOwnerRe,
                    GitURL := projectGitURL\<rparr>) rargs = Inr rargs'"
  with refl show "remote (ctx\<lparr>ownerRegexp := OwnerRe, nameWithOwnerRegexp := nameWithOwnerRe,
                      GitURL := projectGitURL\<rparr>) rargs' = Inr rargs'"
    by (rule remote_second_run_modelled)
qed

theorem second_run_unchanged_witness:
  "apply_cmd sampleContext
       \<lparr>Command = ''apply'',
        Params = [''--check'', ''/tmp/55.patch''],
        beforeChain = [[''curl'', ''-#LA'', ''gh 1.0'',
                        ''https://github.com/jingweno/gh/pull/55.patch'', ''-o'', ''/tmp/55.patch'']],
        Noop = False\<rparr> =
     Inr \<lparr>Command = ''apply'',
          Params = [''--check'', ''/tmp/55.patch''],
          beforeChain = [[''curl'', ''-#LA'', ''gh 1.0'',
                          ''https://github.com/jingweno/gh/pull/55.patch'', ''-o'', ''/tmp/55.patch'']],
          Noop = False\<rparr>
   \<and> remote sampleContext
        (invocation ''remote'' [''add'', ''mislav'', ''git://github.com/mislav/gh.git''])
       = Inr (invocation ''remote'' [''add'', ''mislav'', ''git://github.com/mislav/gh.git''])"
proof -
  have one: "length (filter (\<lambda>p. urlRegexp p \<noteq> None)
      (Params (invocation ''apply'' [''--check'', ''https://github.com/jingweno/gh/pull/55'']))) \<le> 1"
    by (simp add: invocation_def urlRegexp_def)
  have same: "sampleContext\<lparr>ownerRegexp := OwnerRe, nameWithOwnerRegexp := nameWithOwnerRe,
                GitURL := projectGitURL\<rparr> = sampleContext"
    by (simp add: sampleContext_def)
  from second_run_unchanged [where ctx = sampleContext
      and args = "invocation ''apply'' [''--check'', ''https://github.com/jingweno/gh/pull/55'']"
      and rargs = "invocation ''remote'' [''add'', ''mislav'']"
      and rargs' = "invocation ''remote'' [''add'', ''mislav'', ''git://github.com/mislav/gh.git'']",
      unfolded same]
    sample_apply_single one sample_remote_runs(5)
  show ?thesis by blast
qed

text \<open>
  The claim as stated fails for \<^verbatim>\<open>apply\<close> with two URLs: the first run rewrites the
  first URL only, and the second run rewrites the other one and enqueues a second fetch.
\<close>

theorem second_run_counterexample:
  "apply_cmd sampleContext (invocation ''apply''
       [''https://github.com/jingweno/gh/pull/55/files'', ''https://gist.github.com/8da7fb'']) =
     Inr \<lparr>Command = ''apply'',
          Params = [''/tmp/55.patch'', ''https://gist.github.com/8da7fb''],
          beforeChain = [[''curl'', ''-#LA'', ''gh 1.0'',
                          ''https://github.com/jingweno/gh/pull/55.patch'', ''-o'', ''/tmp/55.patch'']],
          Noop = False\<rparr>
   \<and> apply_cmd sampleContext
       \<lparr>Command = ''apply'',
        Params = [''/tmp/55.patch'', ''https://gist.github.com/8da7fb''],
        beforeChain = [[''curl'', ''-#LA'', ''gh 1.0'',
                        ''https://github.com/jingweno/gh/pull/55.patch'', ''-o'', ''/tmp/55.patch'']],
        Noop = False\<rparr> \<noteq>
     Inr \<lparr>Command = ''apply'',
          Params = [''/tmp/55.patch'', ''https://gist.github.com/8da7fb''],
          beforeChain = [[''curl'', ''-#LA'', ''gh 1.0'',
                          ''https://github.com/jingweno/gh/pull/55.patch'', ''-o'', ''/tmp/55.patch'']],
          Noop = False\<rparr>"
  by (simp add: sample_apply_runs)

end
